theory Spec2Isabelle
  imports Main
begin

section \<open>Rock-Paper-Scissors-Plus referee: embedding of state.py, tools.py and agent.py\<close>

text \<open>
  Python values are modelled as follows. A \<open>str\<close> is a \<open>string\<close>, the sequence of its
  UTF-8 bytes, so the emoji of the source appear as bytes. A dictionary read with \<open>d[k]\<close>
  is a map, and a missing key is the value \<open>Inl (KeyError k)\<close>, as the read raises in
  Python. The dataclass \<open>GameState\<close> is a record, and an \<open>Optional[str]\<close> is a
  \<open>string option\<close>. A function that can raise returns \<open>py_error + 'a\<close>.
\<close>

subsection \<open>Python strings\<close>

datatype py_error = KeyError string | AttributeError | IndexError

definition lookup :: "(string \<rightharpoonup> 'v) \<Rightarrow> string \<Rightarrow> py_error + 'v" where
  "lookup d k = (case d k of None \<Rightarrow> Inl (KeyError k) | Some v \<Rightarrow> Inr v)"

text \<open>
  The methods \<open>str.strip\<close>, \<open>str.lower\<close> and \<open>str.capitalize\<close> belong to Python, not to
  the repository, and they follow the Unicode tables of the interpreter: \<open>strip\<close> removes
  every Unicode white space character and \<open>lower\<close> maps every cased character, also beyond
  ASCII. The functions of the repository that call them take them as the parameter \<open>py\<close>
  and apply them where the source does, so every general property below holds for the
  methods of Python, whatever their tables are.
\<close>

record py_str =
  str_strip :: "string \<Rightarrow> string"
  str_lower :: "string \<Rightarrow> string"
  str_capitalize :: "string \<Rightarrow> string"

text \<open>
  One instance, for evaluation on concrete inputs: the three methods on text of ASCII
  characters, where the white space characters are TAB, LF, VT, FF, CR, FS, GS, RS, US
  and SPACE and the cased characters are the 26 letters. On a string of ASCII characters
  it gives what Python gives; it leaves every byte from 128 on as it is, which Python does
  not, so it stands for Python only on ASCII inputs.
\<close>

definition ascii_isspace :: "char \<Rightarrow> bool" where
  "ascii_isspace c \<longleftrightarrow>
     c \<in> set [CHR 0x09, CHR 0x0A, CHR 0x0B, CHR 0x0C, CHR 0x0D,
              CHR 0x1C, CHR 0x1D, CHR 0x1E, CHR 0x1F, CHR 0x20]"

definition ascii_strip :: "string \<Rightarrow> string" where
  "ascii_strip s = rev (dropWhile ascii_isspace (rev (dropWhile ascii_isspace s)))"

definition ascii_uppercase :: string where
  "ascii_uppercase = ''ABCDEFGHIJKLMNOPQRSTUVWXYZ''"

definition ascii_lowercase :: string where
  "ascii_lowercase = ''abcdefghijklmnopqrstuvwxyz''"

definition ascii_lower_char :: "char \<Rightarrow> char" where
  "ascii_lower_char c =
     (case map_of (zip ascii_uppercase ascii_lowercase) c of None \<Rightarrow> c | Some l \<Rightarrow> l)"

definition ascii_upper_char :: "char \<Rightarrow> char" where
  "ascii_upper_char c =
     (case map_of (zip ascii_lowercase ascii_uppercase) c of None \<Rightarrow> c | Some u \<Rightarrow> u)"

definition ascii_lower :: "string \<Rightarrow> string" where
  "ascii_lower s = map ascii_lower_char s"

definition ascii_capitalize :: "string \<Rightarrow> string" where
  "ascii_capitalize s =
     (case s of [] \<Rightarrow> [] | c # cs \<Rightarrow> ascii_upper_char c # ascii_lower cs)"

definition ascii_str :: py_str where
  "ascii_str =
     \<lparr> str_strip = ascii_strip, str_lower = ascii_lower, str_capitalize = ascii_capitalize \<rparr>"

subsection \<open>state.py\<close>

datatype py_val = PInt int | PStr string

record GameState =
  round :: int
  max_rounds :: int
  score :: "string \<rightharpoonup> int"
  bomb_used :: "string \<rightharpoonup> bool"
  history :: "(string \<rightharpoonup> py_val) list"
  game_over :: bool

definition initialize_game_state :: GameState where
  "initialize_game_state =
     \<lparr> round = 1, max_rounds = 3,
       score = [''user'' \<mapsto> 0, ''bot'' \<mapsto> 0],
       bomb_used = [''user'' \<mapsto> False, ''bot'' \<mapsto> False],
       history = [], game_over = False \<rparr>"

subsection \<open>tools.py\<close>

definition VALID_MOVES :: "string set" where
  "VALID_MOVES = {''rock'', ''paper'', ''scissors'', ''bomb''}"

record validation =
  valid :: bool
  normalized_move :: "string option"
  error :: "string option"

definition invalid_move_error :: "string \<Rightarrow> string" where
  "invalid_move_error move =
     ''Invalid move '' @ [CHR 0x27] @ move @ [CHR 0x27]
       @ ''. Valid moves: rock, paper, scissors, bomb''"

definition bomb_used_error :: string where
  "bomb_used_error = ''You have already used your bomb! Choose: rock, paper, or scissors''"

definition validate_move :: "py_str \<Rightarrow> string \<Rightarrow> GameState \<Rightarrow> py_error + validation" where
  "validate_move py move game_state =
     (let normalized = str_lower py (str_strip py move) in
      if normalized \<notin> VALID_MOVES then
        Inr \<lparr> valid = False, normalized_move = None,
              error = Some (invalid_move_error move) \<rparr>
      else
        (case (if normalized = ''bomb'' then lookup (bomb_used game_state) ''user''
               else Inr False) of
           Inl e \<Rightarrow> Inl e
         | Inr bomb_again \<Rightarrow>
             if bomb_again then
               Inr \<lparr> valid = False, normalized_move = None, error = Some bomb_used_error \<rparr>
             else
               Inr \<lparr> valid = True, normalized_move = Some normalized, error = None \<rparr>))"

definition win_conditions :: "string \<rightharpoonup> string" where
  "win_conditions = [''rock'' \<mapsto> ''scissors'', ''scissors'' \<mapsto> ''paper'', ''paper'' \<mapsto> ''rock'']"

definition mk_result :: "string \<Rightarrow> string \<Rightarrow> (string \<rightharpoonup> string)" where
  "mk_result w r = [''winner'' \<mapsto> w, ''reason'' \<mapsto> r]"

definition resolve_round ::
  "py_str \<Rightarrow> string \<Rightarrow> string \<Rightarrow> py_error + (string \<rightharpoonup> string)" where
  "resolve_round py user_move bot_move =
     (if user_move = ''bomb'' \<and> bot_move = ''bomb'' then
        Inr (mk_result ''draw'' (''Both players used bomb - it'' @ [CHR 0x27] @ ''s a draw!''))
      else if user_move = ''bomb'' then
        Inr (mk_result ''user'' ''Bomb beats everything!'')
      else if bot_move = ''bomb'' then
        Inr (mk_result ''bot'' (''Bot'' @ [CHR 0x27] @ ''s bomb beats everything!''))
      else if user_move = bot_move then
        Inr (mk_result ''draw'' (''Both played '' @ user_move))
      else
        (case lookup win_conditions user_move of
           Inl e \<Rightarrow> Inl e
         | Inr beaten \<Rightarrow>
             if beaten = bot_move then
               Inr (mk_result ''user'' (str_capitalize py user_move @ '' beats '' @ bot_move))
             else
               Inr (mk_result ''bot'' (str_capitalize py bot_move @ '' beats '' @ user_move))))"

text \<open>
  \<open>update_game_state\<close> works on a deep copy of its argument, so on values it is a
  function from the old state to the new one. The statements are kept in the order of
  the source, which fixes the \<open>KeyError\<close> that is raised first.
\<close>

definition bump_score :: "string \<Rightarrow> GameState \<Rightarrow> py_error + GameState" where
  "bump_score k s =
     (case lookup (score s) k of
        Inl e \<Rightarrow> Inl e
      | Inr n \<Rightarrow> Inr (s\<lparr> score := (score s)(k \<mapsto> n + 1) \<rparr>))"

definition update_scores :: "string \<Rightarrow> GameState \<Rightarrow> py_error + GameState" where
  "update_scores w s =
     (if w = ''user'' then bump_score ''user'' s
      else if w = ''bot'' then bump_score ''bot'' s
      else Inr s)"

definition mark_bombs :: "string option \<Rightarrow> string \<Rightarrow> GameState \<Rightarrow> GameState" where
  "mark_bombs user_move bot_move s =
     (let s1 = (if user_move = Some ''bomb''
                then s\<lparr> bomb_used := (bomb_used s)(''user'' \<mapsto> True) \<rparr> else s)
      in if bot_move = ''bomb''
         then s1\<lparr> bomb_used := (bomb_used s1)(''bot'' \<mapsto> True) \<rparr> else s1)"

definition history_entry ::
  "int \<Rightarrow> string option \<Rightarrow> string \<Rightarrow> string \<Rightarrow> string \<Rightarrow> (string \<rightharpoonup> py_val)" where
  "history_entry r user_move bot_move w reason =
     [''round'' \<mapsto> PInt r,
      ''user_move'' \<mapsto> PStr (case user_move of None \<Rightarrow> ''INVALID'' | Some m \<Rightarrow> m),
      ''bot_move'' \<mapsto> PStr bot_move,
      ''winner'' \<mapsto> PStr w,
      ''reason'' \<mapsto> PStr reason]"

definition advance_round :: "GameState \<Rightarrow> GameState" where
  "advance_round s =
     (let s1 = s\<lparr> round := round s + 1 \<rparr>
      in if round s1 > max_rounds s1 then s1\<lparr> game_over := True \<rparr> else s1)"

definition update_game_state ::
  "GameState \<Rightarrow> string option \<Rightarrow> string \<Rightarrow> (string \<rightharpoonup> string) \<Rightarrow> py_error + GameState" where
  "update_game_state game_state user_move bot_move round_result =
     (case lookup round_result ''winner'' of
        Inl e \<Rightarrow> Inl e
      | Inr w \<Rightarrow>
          (case update_scores w game_state of
             Inl e \<Rightarrow> Inl e
           | Inr s1 \<Rightarrow>
               (let s2 = mark_bombs user_move bot_move s1 in
                case lookup round_result ''reason'' of
                  Inl e \<Rightarrow> Inl e
                | Inr reason \<Rightarrow>
                    Inr (advance_round
                          (s2\<lparr> history := history s2
                                 @ [history_entry (round s2) user_move bot_move w reason] \<rparr>)))))"

subsection \<open>agent.py\<close>

text \<open>
  \<open>random.choice\<close> draws an index below the length of its argument. The draw is the
  parameter \<open>rnd\<close>, reduced modulo the length, so every index can be drawn. The order in
  which \<open>list(VALID_MOVES)\<close> enumerates the set is not fixed by Python; one order is
  chosen here, and the statement of no theorem below depends on it.
\<close>

record GameRefereeAgent =
  game_state :: GameState
  game_started :: bool

definition agent_init :: GameRefereeAgent where
  "agent_init = \<lparr> game_state = initialize_game_state, game_started = False \<rparr>"

definition nl :: string where "nl = [CHR 0x0A]"
definition emoji_game :: string where "emoji_game = [CHR 0xF0, CHR 0x9F, CHR 0x8E, CHR 0xAE]"
definition emoji_scroll :: string where "emoji_scroll = [CHR 0xF0, CHR 0x9F, CHR 0x93, CHR 0x9C]"
definition bullet :: string where "bullet = [CHR 0xE2, CHR 0x80, CHR 0xA2]"

definition welcome_message :: string where
  "welcome_message =
     emoji_game @ '' Welcome to Rock-Paper-Scissors-Plus!'' @ nl @ nl
     @ emoji_scroll @ '' Rules (Best of 3):'' @ nl
     @ ''   '' @ bullet @ '' Valid moves: rock, paper, scissors, bomb'' @ nl
     @ ''   '' @ bullet @ '' Bomb can be used once per game and beats all other moves'' @ nl
     @ ''   '' @ bullet @ '' Bomb vs Bomb = draw'' @ nl
     @ ''   '' @ bullet @ '' Invalid input wastes the round (bot wins by default)'' @ nl
     @ ''   '' @ bullet @ '' Game ends automatically after 3 rounds'' @ nl @ nl
     @ ''Let'' @ [CHR 0x27] @ ''s begin! What'' @ [CHR 0x27] @ ''s your move for Round 1?''"

definition start_game :: "GameRefereeAgent \<Rightarrow> string \<times> GameRefereeAgent" where
  "start_game self =
     (welcome_message,
      self\<lparr> game_state := initialize_game_state, game_started := True \<rparr>)"

definition list_VALID_MOVES :: "string list" where
  "list_VALID_MOVES = [''rock'', ''paper'', ''scissors'', ''bomb'']"

definition random_choice :: "nat \<Rightarrow> 'a list \<Rightarrow> py_error + 'a" where
  "random_choice rnd xs = (if xs = [] then Inl IndexError else Inr (xs ! (rnd mod length xs)))"

definition generate_bot_move :: "GameRefereeAgent \<Rightarrow> nat \<Rightarrow> py_error + string" where
  "generate_bot_move self rnd =
     (case lookup (bomb_used (game_state self)) ''bot'' of
        Inl e \<Rightarrow> Inl e
      | Inr used \<Rightarrow>
          (let available_moves =
                 (if used then remove1 ''bomb'' list_VALID_MOVES else list_VALID_MOVES)
           in random_choice rnd available_moves))"

text \<open>Rendering: \<open>str\<close> of an integer, \<open>str.join\<close>, and the emoji as UTF-8 bytes.\<close>

fun str_nat :: "nat \<Rightarrow> string" where
  "str_nat n =
     (if n < 10 then [''0123456789'' ! n]
      else str_nat (n div 10) @ [''0123456789'' ! (n mod 10)])"

declare str_nat.simps [simp del]

definition str_int :: "int \<Rightarrow> string" where
  "str_int i = (if i < 0 then ''-'' @ str_nat (nat (- i)) else str_nat (nat i))"

definition str_opt :: "string option \<Rightarrow> string" where
  "str_opt x = (case x of None \<Rightarrow> ''None'' | Some s \<Rightarrow> s)"

fun py_join :: "string \<Rightarrow> string list \<Rightarrow> string" where
  "py_join sep [] = []"
| "py_join sep [x] = x"
| "py_join sep (x # y # ys) = x @ sep @ py_join sep (y # ys)"

definition emoji_no_entry :: string where "emoji_no_entry = [CHR 0xF0, CHR 0x9F, CHR 0x9A, CHR 0xAB]"
definition emoji_target :: string where "emoji_target = [CHR 0xF0, CHR 0x9F, CHR 0x8E, CHR 0xAF]"
definition emoji_warning :: string where
  "emoji_warning = [CHR 0xE2, CHR 0x9A, CHR 0xA0, CHR 0xEF, CHR 0xB8, CHR 0x8F]"
definition emoji_bomb :: string where "emoji_bomb = [CHR 0xF0, CHR 0x9F, CHR 0x92, CHR 0xA3]"
definition emoji_trophy :: string where "emoji_trophy = [CHR 0xF0, CHR 0x9F, CHR 0x8F, CHR 0x86]"
definition emoji_robot :: string where "emoji_robot = [CHR 0xF0, CHR 0x9F, CHR 0xA4, CHR 0x96]"
definition emoji_handshake :: string where "emoji_handshake = [CHR 0xF0, CHR 0x9F, CHR 0xA4, CHR 0x9D]"
definition emoji_chart :: string where "emoji_chart = [CHR 0xF0, CHR 0x9F, CHR 0x93, CHR 0x8A]"
definition emoji_party :: string where "emoji_party = [CHR 0xF0, CHR 0x9F, CHR 0x8E, CHR 0x89]"

definition format_final_result :: "GameRefereeAgent \<Rightarrow> py_error + string" where
  "format_final_result self =
     (case lookup (score (game_state self)) ''user'' of
        Inl e \<Rightarrow> Inl e
      | Inr user_score \<Rightarrow>
     (case lookup (score (game_state self)) ''bot'' of
        Inl e \<Rightarrow> Inl e
      | Inr bot_score \<Rightarrow>
          (let result_lines =
                 [nl @ replicate 50 CHR ''='',
                  emoji_game @ '' GAME OVER - Final Results'',
                  replicate 50 CHR ''='',
                  ''Final Score: You '' @ str_int user_score @ '' - '' @ str_int bot_score
                    @ '' Bot''];
               result_lines =
                 (if user_score > bot_score then
                    result_lines @ [nl @ emoji_party @ '' YOU WIN THE GAME! '' @ emoji_party]
                  else if bot_score > user_score then
                    result_lines @ [nl @ emoji_robot @ '' BOT WINS THE GAME! '' @ emoji_robot]
                  else
                    result_lines @ [nl @ emoji_handshake @ '' IT'' @ [CHR 0x27] @ ''S A DRAW! ''
                                      @ emoji_handshake]);
               result_lines = result_lines @ [nl @ ''Thanks for playing!'']
           in Inr (py_join nl result_lines))))"

definition format_round_response ::
  "GameRefereeAgent \<Rightarrow> int \<Rightarrow> string option \<Rightarrow> string \<Rightarrow> (string \<rightharpoonup> string)
     \<Rightarrow> validation \<Rightarrow> py_error + string" where
  "format_round_response self round_num user_move bot_move round_result validation_result =
     (let lines = [nl @ emoji_target @ '' Round '' @ str_int round_num @ '' Results:''];
          lines =
            (if \<not> valid validation_result then
               lines @ [''   '' @ emoji_warning @ ''  '' @ str_opt (error validation_result),
                        ''   You: INVALID INPUT'']
             else
               lines @ [''   You: '' @ str_opt user_move @ '' ''
                          @ (if user_move = Some ''bomb'' then emoji_bomb else [])]);
          lines = lines @ [''   Bot: '' @ bot_move @ '' ''
                             @ (if bot_move = ''bomb'' then emoji_bomb else [])]
      in
      case lookup round_result ''reason'' of
        Inl e \<Rightarrow> Inl e
      | Inr reason \<Rightarrow>
      (let lines = lines @ [''   Result: '' @ reason] in
      case lookup round_result ''winner'' of
        Inl e \<Rightarrow> Inl e
      | Inr w \<Rightarrow>
      (let lines =
            (if w = ''user'' then lines @ [''   '' @ emoji_trophy @ '' You win this round!'']
             else if w = ''bot'' then lines @ [''   '' @ emoji_robot @ '' Bot wins this round!'']
             else lines @ [''   '' @ emoji_handshake @ '' Draw!'']) in
      case lookup (score (game_state self)) ''user'' of
        Inl e \<Rightarrow> Inl e
      | Inr user_score \<Rightarrow>
      (case lookup (score (game_state self)) ''bot'' of
        Inl e \<Rightarrow> Inl e
      | Inr bot_score \<Rightarrow>
      (let lines = lines @ [nl @ emoji_chart @ '' Score: You '' @ str_int user_score @ '' - ''
                              @ str_int bot_score @ '' Bot'']
       in
       if game_over (game_state self) then
         (case format_final_result self of
            Inl e \<Rightarrow> Inl e
          | Inr final \<Rightarrow> Inr (py_join nl (lines @ [final])))
       else
         Inr (py_join nl
               (lines @ [nl @ ''What'' @ [CHR 0x27] @ ''s your move for Round ''
                           @ str_int (round (game_state self)) @ ''?''])))))))"

definition not_started_message :: string where
  "not_started_message = ''Game not started. Please start a new game first.''"

definition game_over_message :: string where
  "game_over_message = emoji_no_entry @ '' The game is already over. Please start a new game.''"

definition invalid_input_result :: "string \<rightharpoonup> string" where
  "invalid_input_result = mk_result ''bot'' ''Invalid input - bot wins by default''"

text \<open>
  \<open>process_turn\<close> returns the response, or the exception that was raised, together with
  the agent as the call leaves it: an exception raised after the assignment to
  \<open>self.game_state\<close> leaves the new state in place.
\<close>

definition process_turn ::
  "py_str \<Rightarrow> GameRefereeAgent \<Rightarrow> string \<Rightarrow> nat
     \<Rightarrow> (py_error + string) \<times> GameRefereeAgent" where
  "process_turn py self user_input rnd =
     (if \<not> game_started self then (Inr not_started_message, self)
      else if game_over (game_state self) then (Inr game_over_message, self)
      else
        (let current_round = round (game_state self) in
         case validate_move py user_input (game_state self) of
           Inl e \<Rightarrow> (Inl e, self)
         | Inr validation_result \<Rightarrow>
         (let user_move = (if \<not> valid validation_result then None
                           else normalized_move validation_result) in
          case generate_bot_move self rnd of
            Inl e \<Rightarrow> (Inl e, self)
          | Inr bot_move \<Rightarrow>
          (case (case user_move of
                   None \<Rightarrow> Inr invalid_input_result
                 | Some m \<Rightarrow> resolve_round py m bot_move) of
             Inl e \<Rightarrow> (Inl e, self)
           | Inr round_result \<Rightarrow>
           (case update_game_state (game_state self) user_move bot_move round_result of
              Inl e \<Rightarrow> (Inl e, self)
            | Inr new_state \<Rightarrow>
                (let self' = self\<lparr> game_state := new_state \<rparr> in
                 (format_round_response self' current_round user_move bot_move round_result
                    validation_result, self')))))))"

subsection \<open>The tools on a store of objects\<close>

text \<open>
  \<open>update_game_state\<close> receives a reference to a \<open>GameState\<close> object whose fields
  \<open>score\<close>, \<open>bomb_used\<close> and \<open>history\<close> refer to two dictionaries and a list, all of them
  mutable. The store is a list of objects and an address is an index into it; a new
  object is put at the end. The entries of \<open>history\<close> are never written by the code, so
  the list object holds them by value. An address that does not hold an object of the
  kind the code expects gives \<open>AttributeError\<close>.
\<close>

type_synonym addr = nat

record GameState_obj =
  obj_round :: int
  obj_max_rounds :: int
  obj_score :: addr
  obj_bomb_used :: addr
  obj_history :: addr
  obj_game_over :: bool

datatype py_obj =
    State_obj GameState_obj
  | Dict_int "string \<rightharpoonup> int"
  | Dict_bool "string \<rightharpoonup> bool"
  | List_obj "(string \<rightharpoonup> py_val) list"

type_synonym heap = "py_obj list"

definition get_state :: "heap \<Rightarrow> addr \<Rightarrow> py_error + GameState_obj" where
  "get_state h a =
     (if a < length h then (case h ! a of State_obj so \<Rightarrow> Inr so | _ \<Rightarrow> Inl AttributeError)
      else Inl AttributeError)"

definition get_dict_int :: "heap \<Rightarrow> addr \<Rightarrow> py_error + (string \<rightharpoonup> int)" where
  "get_dict_int h a =
     (if a < length h then (case h ! a of Dict_int d \<Rightarrow> Inr d | _ \<Rightarrow> Inl AttributeError)
      else Inl AttributeError)"

definition get_dict_bool :: "heap \<Rightarrow> addr \<Rightarrow> py_error + (string \<rightharpoonup> bool)" where
  "get_dict_bool h a =
     (if a < length h then (case h ! a of Dict_bool d \<Rightarrow> Inr d | _ \<Rightarrow> Inl AttributeError)
      else Inl AttributeError)"

definition get_list :: "heap \<Rightarrow> addr \<Rightarrow> py_error + (string \<rightharpoonup> py_val) list" where
  "get_list h a =
     (if a < length h then (case h ! a of List_obj xs \<Rightarrow> Inr xs | _ \<Rightarrow> Inl AttributeError)
      else Inl AttributeError)"

text \<open>The value of the state object at an address: its fields, with the references followed.\<close>

definition read_state :: "heap \<Rightarrow> addr \<Rightarrow> py_error + GameState" where
  "read_state h a =
     (case get_state h a of
        Inl e \<Rightarrow> Inl e
      | Inr so \<Rightarrow>
     (case get_dict_int h (obj_score so) of
        Inl e \<Rightarrow> Inl e
      | Inr sc \<Rightarrow>
     (case get_dict_bool h (obj_bomb_used so) of
        Inl e \<Rightarrow> Inl e
      | Inr bu \<Rightarrow>
     (case get_list h (obj_history so) of
        Inl e \<Rightarrow> Inl e
      | Inr hi \<Rightarrow>
          Inr \<lparr> round = obj_round so, max_rounds = obj_max_rounds so, score = sc,
                bomb_used = bu, history = hi, game_over = obj_game_over so \<rparr>))))"

text \<open>\<open>copy.deepcopy\<close> of a state: fresh copies of the two dictionaries, the list and the object.\<close>

definition deepcopy :: "addr \<Rightarrow> heap \<Rightarrow> py_error + addr \<times> heap" where
  "deepcopy a h =
     (case get_state h a of
        Inl e \<Rightarrow> Inl e
      | Inr so \<Rightarrow>
     (case get_dict_int h (obj_score so) of
        Inl e \<Rightarrow> Inl e
      | Inr sc \<Rightarrow>
     (case get_dict_bool h (obj_bomb_used so) of
        Inl e \<Rightarrow> Inl e
      | Inr bu \<Rightarrow>
     (case get_list h (obj_history so) of
        Inl e \<Rightarrow> Inl e
      | Inr hi \<Rightarrow>
          (let n = length h in
           Inr (n + 3,
                h @ [Dict_int sc, Dict_bool bu, List_obj hi,
                     State_obj (so\<lparr> obj_score := n, obj_bomb_used := n + 1,
                                    obj_history := n + 2 \<rparr>)]))))))"

definition bump_score_h :: "string \<Rightarrow> addr \<Rightarrow> heap \<Rightarrow> py_error + heap" where
  "bump_score_h k st h =
     (case get_state h st of
        Inl e \<Rightarrow> Inl e
      | Inr so \<Rightarrow>
     (case get_dict_int h (obj_score so) of
        Inl e \<Rightarrow> Inl e
      | Inr d \<Rightarrow>
     (case lookup d k of
        Inl e \<Rightarrow> Inl e
      | Inr n \<Rightarrow> Inr (h[obj_score so := Dict_int (d(k \<mapsto> n + 1))]))))"

definition update_scores_h :: "string \<Rightarrow> addr \<Rightarrow> heap \<Rightarrow> py_error + heap" where
  "update_scores_h w st h =
     (if w = ''user'' then bump_score_h ''user'' st h
      else if w = ''bot'' then bump_score_h ''bot'' st h
      else Inr h)"

definition set_bomb_h :: "string \<Rightarrow> addr \<Rightarrow> heap \<Rightarrow> py_error + heap" where
  "set_bomb_h k st h =
     (case get_state h st of
        Inl e \<Rightarrow> Inl e
      | Inr so \<Rightarrow>
     (case get_dict_bool h (obj_bomb_used so) of
        Inl e \<Rightarrow> Inl e
      | Inr d \<Rightarrow> Inr (h[obj_bomb_used so := Dict_bool (d(k \<mapsto> True))])))"

definition mark_bombs_h :: "string option \<Rightarrow> string \<Rightarrow> addr \<Rightarrow> heap \<Rightarrow> py_error + heap" where
  "mark_bombs_h user_move bot_move st h =
     (case (if user_move = Some ''bomb'' then set_bomb_h ''user'' st h else Inr h) of
        Inl e \<Rightarrow> Inl e
      | Inr h1 \<Rightarrow> if bot_move = ''bomb'' then set_bomb_h ''bot'' st h1 else Inr h1)"

definition append_history_h ::
  "string option \<Rightarrow> string \<Rightarrow> string \<Rightarrow> string \<Rightarrow> addr \<Rightarrow> heap \<Rightarrow> py_error + heap" where
  "append_history_h user_move bot_move w reason st h =
     (case get_state h st of
        Inl e \<Rightarrow> Inl e
      | Inr so \<Rightarrow>
     (case get_list h (obj_history so) of
        Inl e \<Rightarrow> Inl e
      | Inr hi \<Rightarrow>
          Inr (h[obj_history so :=
                   List_obj (hi @ [history_entry (obj_round so) user_move bot_move w reason])])))"

definition advance_round_h :: "addr \<Rightarrow> heap \<Rightarrow> py_error + heap" where
  "advance_round_h st h =
     (case get_state h st of
        Inl e \<Rightarrow> Inl e
      | Inr so \<Rightarrow>
          (let so1 = so\<lparr> obj_round := obj_round so + 1 \<rparr>;
               so2 = (if obj_round so1 > obj_max_rounds so1
                      then so1\<lparr> obj_game_over := True \<rparr> else so1)
           in Inr (h[st := State_obj so2])))"

text \<open>
  The result is the address of the new state, or the exception, together with the store
  as the call leaves it.
\<close>

definition update_game_state_h ::
  "addr \<Rightarrow> string option \<Rightarrow> string \<Rightarrow> (string \<rightharpoonup> string) \<Rightarrow> heap
     \<Rightarrow> (py_error + addr) \<times> heap" where
  "update_game_state_h state_ref user_move bot_move round_result h =
     (case deepcopy state_ref h of
        Inl e \<Rightarrow> (Inl e, h)
      | Inr (new_state, h0) \<Rightarrow>
     (case lookup round_result ''winner'' of
        Inl e \<Rightarrow> (Inl e, h0)
      | Inr w \<Rightarrow>
     (case update_scores_h w new_state h0 of
        Inl e \<Rightarrow> (Inl e, h0)
      | Inr h1 \<Rightarrow>
     (case mark_bombs_h user_move bot_move new_state h1 of
        Inl e \<Rightarrow> (Inl e, h1)
      | Inr h2 \<Rightarrow>
     (case lookup round_result ''reason'' of
        Inl e \<Rightarrow> (Inl e, h2)
      | Inr reason \<Rightarrow>
     (case append_history_h user_move bot_move w reason new_state h2 of
        Inl e \<Rightarrow> (Inl e, h2)
      | Inr h3 \<Rightarrow>
     (case advance_round_h new_state h3 of
        Inl e \<Rightarrow> (Inl e, h3)
      | Inr h4 \<Rightarrow> (Inr new_state, h4))))))))"

definition validate_move_h ::
  "py_str \<Rightarrow> string \<Rightarrow> addr \<Rightarrow> heap \<Rightarrow> (py_error + validation) \<times> heap" where
  "validate_move_h py move state_ref h =
     (let normalized = str_lower py (str_strip py move) in
      if normalized \<notin> VALID_MOVES then
        (Inr \<lparr> valid = False, normalized_move = None,
               error = Some (invalid_move_error move) \<rparr>, h)
      else
        (case (if normalized = ''bomb'' then
                 (case get_state h state_ref of
                    Inl e \<Rightarrow> Inl e
                  | Inr so \<Rightarrow>
                      (case get_dict_bool h (obj_bomb_used so) of
                         Inl e \<Rightarrow> Inl e
                       | Inr d \<Rightarrow> lookup d ''user''))
               else Inr False) of
           Inl e \<Rightarrow> (Inl e, h)
         | Inr bomb_again \<Rightarrow>
             if bomb_again then
               (Inr \<lparr> valid = False, normalized_move = None, error = Some bomb_used_error \<rparr>, h)
             else
               (Inr \<lparr> valid = True, normalized_move = Some normalized, error = None \<rparr>, h)))"

subsection \<open>Notions used in the properties\<close>

text \<open>
  An outcome dictionary that carries both keys read by \<open>update_game_state\<close>, and a state
  whose dictionaries carry the keys \<open>user\<close> and \<open>bot\<close>. On such arguments no read
  raises \<open>KeyError\<close>.
\<close>

definition result_ok :: "(string \<rightharpoonup> string) \<Rightarrow> bool" where
  "result_ok rr \<longleftrightarrow> rr ''winner'' \<noteq> None \<and> rr ''reason'' \<noteq> None"

definition scores_ok :: "GameState \<Rightarrow> bool" where
  "scores_ok s \<longleftrightarrow> score s ''user'' \<noteq> None \<and> score s ''bot'' \<noteq> None"

definition state_ok :: "GameState \<Rightarrow> bool" where
  "state_ok s \<longleftrightarrow> scores_ok s \<and> bomb_used s ''user'' \<noteq> None \<and> bomb_used s ''bot'' \<noteq> None"

text \<open>The cyclic relation of the rules: rock beats scissors, scissors beats paper, paper beats rock.\<close>

definition beats :: "string \<Rightarrow> string \<Rightarrow> bool" where
  "beats a b \<longleftrightarrow>
     (a = ''rock'' \<and> b = ''scissors'') \<or> (a = ''scissors'' \<and> b = ''paper'')
       \<or> (a = ''paper'' \<and> b = ''rock'')"

text \<open>Consecutive calls of \<open>update_game_state\<close>, each on the state the previous one returned.\<close>

fun update_game_state_seq ::
  "GameState \<Rightarrow> (string option \<times> string \<times> (string \<rightharpoonup> string)) list \<Rightarrow> py_error + GameState" where
  "update_game_state_seq s [] = Inr s"
| "update_game_state_seq s ((user_move, bot_move, round_result) # calls) =
     (case update_game_state s user_move bot_move round_result of
        Inl e \<Rightarrow> Inl e
      | Inr s' \<Rightarrow> update_game_state_seq s' calls)"

text \<open>The four objects that hold a state value \<open>s\<close> when they are stored from address \<open>n\<close> on.\<close>

definition layout :: "addr \<Rightarrow> GameState \<Rightarrow> py_obj list" where
  "layout n s =
     [Dict_int (score s), Dict_bool (bomb_used s), List_obj (history s),
      State_obj \<lparr> obj_round = round s, obj_max_rounds = max_rounds s, obj_score = n,
                  obj_bomb_used = n + 1, obj_history = n + 2, obj_game_over = game_over s \<rparr>]"

text \<open>Concrete outcomes, states, agents and a store, on which the theorems are instantiated.\<close>

definition user_result :: "string \<rightharpoonup> string" where
  "user_result = mk_result ''user'' ''Rock beats scissors''"

definition bot_result :: "string \<rightharpoonup> string" where
  "bot_result = mk_result ''bot'' ''Paper beats rock''"

definition draw_result :: "string \<rightharpoonup> string" where
  "draw_result = mk_result ''draw'' ''Both played rock''"

definition three_calls :: "(string option \<times> string \<times> (string \<rightharpoonup> string)) list" where
  "three_calls =
     [(Some ''rock'', ''scissors'', user_result),
      (Some ''rock'', ''paper'', bot_result),
      (Some ''rock'', ''rock'', draw_result)]"

definition both_bombs_used :: GameState where
  "both_bombs_used = initialize_game_state\<lparr> bomb_used := [''user'' \<mapsto> True, ''bot'' \<mapsto> True] \<rparr>"

definition user_bomb_used :: GameState where
  "user_bomb_used = initialize_game_state\<lparr> bomb_used := [''user'' \<mapsto> True, ''bot'' \<mapsto> False] \<rparr>"

definition at_round_3 :: GameState where
  "at_round_3 = initialize_game_state\<lparr> round := 3 \<rparr>"

definition started_game :: GameRefereeAgent where
  "started_game = snd (start_game agent_init)"

definition finished_state :: GameState where
  "finished_state = initialize_game_state\<lparr> round := 4, game_over := True \<rparr>"

definition finished_agent :: GameRefereeAgent where
  "finished_agent = \<lparr> game_state = finished_state, game_started = True \<rparr>"

definition over_at_round_1 :: GameState where
  "over_at_round_1 = initialize_game_state\<lparr> game_over := True \<rparr>"

definition over_at_round_2 :: GameState where
  "over_at_round_2 =
     \<lparr> round = 2, max_rounds = 3,
       score = [''user'' \<mapsto> 0, ''bot'' \<mapsto> 0],
       bomb_used = [''user'' \<mapsto> False, ''bot'' \<mapsto> False],
       history = [history_entry 1 (Some ''rock'') ''rock'' ''draw'' ''Both played rock''],
       game_over = True \<rparr>"

definition initial_heap :: heap where
  "initial_heap =
     [Dict_int [''user'' \<mapsto> 0, ''bot'' \<mapsto> 0],
      Dict_bool [''user'' \<mapsto> False, ''bot'' \<mapsto> False],
      List_obj [],
      State_obj \<lparr> obj_round = 1, obj_max_rounds = 3, obj_score = 0, obj_bomb_used = 1,
                  obj_history = 2, obj_game_over = False \<rparr>]"


section \<open>Properties\<close>

subsection \<open>Evaluation rules and reads\<close>

lemmas str_eval = ascii_str_def ascii_lower_def ascii_strip_def ascii_isspace_def
  ascii_lower_char_def ascii_upper_char_def ascii_capitalize_def ascii_uppercase_def
  ascii_lowercase_def

lemmas update_eval = update_game_state_def update_scores_def bump_score_def mark_bombs_def
  advance_round_def lookup_def mk_result_def Let_def

lemmas heap_eval = update_game_state_h_def deepcopy_def get_state_def get_dict_int_def
  get_dict_bool_def get_list_def update_scores_h_def bump_score_h_def mark_bombs_h_def
  set_bomb_h_def append_history_h_def advance_round_h_def lookup_def read_state_def Let_def

lemma winner_mk_result [simp]: "mk_result w r ''winner'' = Some w"
  by (simp add: mk_result_def)

lemma reason_mk_result [simp]: "mk_result w r ''reason'' = Some r"
  by (simp add: mk_result_def)

lemma results_ok:
  "result_ok user_result" "result_ok bot_result" "result_ok draw_result"
  "result_ok invalid_input_result"
  by (simp_all add: result_ok_def user_result_def bot_result_def draw_result_def
      invalid_input_result_def)

lemma initial_scores_ok: "scores_ok initialize_game_state"
  by (simp add: scores_ok_def initialize_game_state_def)

subsection \<open>What one call of \<open>update_game_state\<close> does\<close>

lemma bump_score_Inr:
  "bump_score k s = Inr s' \<longleftrightarrow>
     (\<exists>n. score s k = Some n \<and> s' = s\<lparr> score := (score s)(k \<mapsto> n + 1) \<rparr>)"
  by (auto simp add: bump_score_def lookup_def split: option.splits)

lemma update_scores_Inr:
  "update_scores w s = Inr s1 \<longleftrightarrow>
     (if w = ''user'' then
        \<exists>n. score s ''user'' = Some n \<and> s1 = s\<lparr>score := (score s)(''user'' \<mapsto> n + 1)\<rparr>
      else if w = ''bot'' then
        \<exists>n. score s ''bot'' = Some n \<and> s1 = s\<lparr>score := (score s)(''bot'' \<mapsto> n + 1)\<rparr>
      else s1 = s)"
  by (auto simp: update_scores_def bump_score_Inr)

lemma update_scores_fields:
  assumes "update_scores w s = Inr s1"
  shows "round s1 = round s" "max_rounds s1 = max_rounds s" "bomb_used s1 = bomb_used s"
    "history s1 = history s" "game_over s1 = game_over s"
  using assms by (auto simp add: update_scores_def bump_score_Inr split: if_splits)

lemma update_scores_returns: "scores_ok s \<Longrightarrow> \<exists>s1. update_scores w s = Inr s1"
  by (auto simp: update_scores_def bump_score_Inr scores_ok_def)

lemma mark_bombs_fields [simp]:
  "round (mark_bombs um bm s) = round s"
  "max_rounds (mark_bombs um bm s) = max_rounds s"
  "score (mark_bombs um bm s) = score s"
  "history (mark_bombs um bm s) = history s"
  "game_over (mark_bombs um bm s) = game_over s"
  by (simp_all add: mark_bombs_def Let_def)

lemma mark_bombs_bomb_used:
  "bomb_used (mark_bombs um bm s) k =
     (if (k = ''user'' \<and> um = Some ''bomb'') \<or> (k = ''bot'' \<and> bm = ''bomb'') then Some True
      else bomb_used s k)"
  by (simp add: mark_bombs_def Let_def)

lemma advance_round_fields [simp]:
  "round (advance_round s) = round s + 1"
  "max_rounds (advance_round s) = max_rounds s"
  "score (advance_round s) = score s"
  "bomb_used (advance_round s) = bomb_used s"
  "history (advance_round s) = history s"
  "game_over (advance_round s) = (game_over s \<or> round s + 1 > max_rounds s)"
  by (simp_all add: advance_round_def Let_def)

lemma update_game_state_Inr:
  "update_game_state s um bm rr = Inr s' \<longleftrightarrow>
     (\<exists>w reason s1. rr ''winner'' = Some w \<and> rr ''reason'' = Some reason \<and>
        update_scores w s = Inr s1 \<and>
        s' = advance_round
               ((mark_bombs um bm s1)\<lparr> history := history (mark_bombs um bm s1)
                   @ [history_entry (round (mark_bombs um bm s1)) um bm w reason] \<rparr>))"
  by (auto simp add: update_game_state_def lookup_def Let_def split: option.splits sum.splits)

lemma update_game_state_fields:
  assumes "update_game_state s um bm rr = Inr s'"
  shows "round s' = round s + 1"
    and "max_rounds s' = max_rounds s"
    and "game_over s' = (game_over s \<or> round s + 1 > max_rounds s)"
    and "\<exists>w reason. rr ''winner'' = Some w \<and> rr ''reason'' = Some reason \<and>
           history s' = history s @ [history_entry (round s) um bm w reason]"
    and "bomb_used s' k =
           (if (k = ''user'' \<and> um = Some ''bomb'') \<or> (k = ''bot'' \<and> bm = ''bomb'')
            then Some True else bomb_used s k)"
proof -
  from assms obtain w reason s1 where
    rr: "rr ''winner'' = Some w" "rr ''reason'' = Some reason" and
    s1: "update_scores w s = Inr s1" and
    s': "s' = advance_round
               ((mark_bombs um bm s1)\<lparr> history := history (mark_bombs um bm s1)
                   @ [history_entry (round (mark_bombs um bm s1)) um bm w reason] \<rparr>)"
    unfolding update_game_state_Inr by blast
  note f = update_scores_fields [OF s1]
  show "round s' = round s + 1" by (simp add: s' f)
  show "max_rounds s' = max_rounds s" by (simp add: s' f)
  show "game_over s' = (game_over s \<or> round s + 1 > max_rounds s)" by (simp add: s' f)
  show "\<exists>w reason. rr ''winner'' = Some w \<and> rr ''reason'' = Some reason \<and>
           history s' = history s @ [history_entry (round s) um bm w reason]"
    by (simp add: s' f rr)
  show "bomb_used s' k =
           (if (k = ''user'' \<and> um = Some ''bomb'') \<or> (k = ''bot'' \<and> bm = ''bomb'')
            then Some True else bomb_used s k)"
    by (simp add: s' f mark_bombs_bomb_used)
qed

lemma update_game_state_score:
  assumes "update_game_state s um bm rr = Inr s'"
  shows "\<exists>w. rr ''winner'' = Some w \<and>
       (if w = ''user'' then
          \<exists>n. score s ''user'' = Some n \<and> score s' = (score s)(''user'' \<mapsto> n + 1)
        else if w = ''bot'' then
          \<exists>n. score s ''bot'' = Some n \<and> score s' = (score s)(''bot'' \<mapsto> n + 1)
        else score s' = score s)"
proof -
  from assms obtain w reason s1 where
    rr: "rr ''winner'' = Some w" and
    s1: "update_scores w s = Inr s1" and
    s': "s' = advance_round
               ((mark_bombs um bm s1)\<lparr> history := history (mark_bombs um bm s1)
                   @ [history_entry (round (mark_bombs um bm s1)) um bm w reason] \<rparr>)"
    unfolding update_game_state_Inr by blast
  have "score s' = score s1" by (simp add: s')
  with s1 rr show ?thesis
    by (auto simp: update_scores_Inr split: if_splits)
qed

lemma update_game_state_returns:
  assumes "result_ok rr" and "scores_ok s"
  shows "\<exists>s'. update_game_state s um bm rr = Inr s'"
proof -
  from assms(1) obtain w reason where rr: "rr ''winner'' = Some w" "rr ''reason'' = Some reason"
    by (auto simp: result_ok_def)
  from update_scores_returns [OF assms(2)] obtain s1 where "update_scores w s = Inr s1"
    by blast
  with rr show ?thesis
    unfolding update_game_state_Inr by blast
qed

lemma update_game_state_scores_ok:
  "update_game_state s um bm rr = Inr s' \<Longrightarrow> scores_ok s \<Longrightarrow> scores_ok s'"
  by (drule update_game_state_score) (auto simp: scores_ok_def split: if_splits)

subsection \<open>Consecutive calls from a fresh state\<close>

lemma seq_invariant:
  assumes "scores_ok s" and "\<forall>(um, bm, rr) \<in> set calls. result_ok rr"
  shows "\<exists>s'. update_game_state_seq s calls = Inr s' \<and>
           length (history s') = length (history s) + length calls \<and>
           round s' = round s + int (length calls) \<and>
           max_rounds s' = max_rounds s \<and>
           (game_over s' \<longleftrightarrow>
              game_over s \<or> (calls \<noteq> [] \<and> round s + int (length calls) > max_rounds s))"
  using assms
proof (induction calls arbitrary: s)
  case Nil
  then show ?case by simp
next
  case (Cons c calls)
  obtain um bm rr where c: "c = (um, bm, rr)" by (cases c)
  from Cons.prems c have ok: "result_ok rr" by simp
  from update_game_state_returns [OF ok Cons.prems(1)] obtain s1 where
    s1: "update_game_state s um bm rr = Inr s1" by blast
  note f = update_game_state_fields [OF s1]
  from f(4) have h1: "length (history s1) = length (history s) + 1" by auto
  have "scores_ok s1" using s1 Cons.prems(1) by (rule update_game_state_scores_ok)
  moreover from Cons.prems(2) have "\<forall>(um, bm, rr) \<in> set calls. result_ok rr" by simp
  ultimately obtain s' where
    s': "update_game_state_seq s1 calls = Inr s'"
      "length (history s') = length (history s1) + length calls"
      "round s' = round s1 + int (length calls)"
      "max_rounds s' = max_rounds s1"
      "game_over s' \<longleftrightarrow>
         game_over s1 \<or> (calls \<noteq> [] \<and> round s1 + int (length calls) > max_rounds s1)"
    using Cons.IH [of s1] by blast
  have "update_game_state_seq s (c # calls) = Inr s'" by (simp add: c s1 s'(1))
  moreover have "length (history s') = length (history s) + length (c # calls)"
    by (simp add: s'(2) h1)
  moreover have "round s' = round s + int (length (c # calls))"
    by (simp add: s'(3) f(1))
  moreover have "max_rounds s' = max_rounds s" by (simp add: s'(4) f(2))
  moreover have "game_over s' \<longleftrightarrow>
       game_over s \<or> (c # calls \<noteq> [] \<and> round s + int (length (c # calls)) > max_rounds s)"
    unfolding s'(5) f(1) f(2) f(3) by (cases calls) auto
  ultimately show ?case by blast
qed

text \<open>
  C1. Let \<open>calls\<close> be any list of N argument triples (user move, bot move, outcome) whose
  outcomes carry a winner and a reason. Feeding them one after the other to
  \<open>update_game_state\<close>, starting from \<open>initialize_game_state\<close>, returns a state: its history
  has length N, its round is 1 + N, \<open>max_rounds\<close> is still 3 and \<open>game_over\<close> is true
  exactly when N is at least \<open>max_rounds\<close>.
\<close>

theorem calls_from_fresh_state:
  assumes "\<forall>(user_move, bot_move, round_result) \<in> set calls. result_ok round_result"
  shows "\<exists>s'. update_game_state_seq initialize_game_state calls = Inr s' \<and>
           length (history s') = length calls \<and>
           round s' = 1 + int (length calls) \<and>
           max_rounds s' = 3 \<and>
           (game_over s' \<longleftrightarrow> int (length calls) \<ge> max_rounds s')"
proof -
  from seq_invariant [OF initial_scores_ok assms] obtain s' where
    s': "update_game_state_seq initialize_game_state calls = Inr s'"
      "length (history s') = length (history initialize_game_state) + length calls"
      "round s' = round initialize_game_state + int (length calls)"
      "max_rounds s' = max_rounds initialize_game_state"
      "game_over s' \<longleftrightarrow> game_over initialize_game_state \<or>
         (calls \<noteq> [] \<and> round initialize_game_state + int (length calls)
            > max_rounds initialize_game_state)"
    by blast
  have "game_over s' \<longleftrightarrow> int (length calls) \<ge> max_rounds s'"
    unfolding s'(4) s'(5) by (auto simp: initialize_game_state_def)
  with s' show ?thesis
    by (auto simp: initialize_game_state_def)
qed

theorem calls_from_fresh_state_witness:
  "result_ok user_result \<and> result_ok bot_result \<and> result_ok draw_result \<and>
   (\<exists>s'. update_game_state_seq initialize_game_state three_calls = Inr s' \<and>
      length (history s') = 3 \<and> round s' = 4 \<and> max_rounds s' = 3 \<and> game_over s')"
proof -
  have ok: "\<forall>(user_move, bot_move, round_result) \<in> set three_calls. result_ok round_result"
    by (simp add: three_calls_def results_ok)
  have len: "length three_calls = 3" by (simp add: three_calls_def)
  from calls_from_fresh_state [OF ok] results_ok show ?thesis
    unfolding len by auto
qed


subsection \<open>\<open>resolve_round\<close>\<close>

lemma resolve_round_bomb:
  "resolve_round py ''bomb'' ''bomb'' =
     Inr (mk_result ''draw'' (''Both players used bomb - it'' @ [CHR 0x27] @ ''s a draw!''))"
  "b \<noteq> ''bomb'' \<Longrightarrow> resolve_round py ''bomb'' b = Inr (mk_result ''user'' ''Bomb beats everything!'')"
  "a \<noteq> ''bomb'' \<Longrightarrow>
     resolve_round py a ''bomb'' =
       Inr (mk_result ''bot'' (''Bot'' @ [CHR 0x27] @ ''s bomb beats everything!''))"
  by (simp_all add: resolve_round_def)

lemma resolve_round_same:
  "a \<noteq> ''bomb'' \<Longrightarrow> resolve_round py a a = Inr (mk_result ''draw'' (''Both played '' @ a))"
  by (simp add: resolve_round_def)

lemma resolve_round_beats:
  assumes "a \<in> VALID_MOVES" "b \<in> VALID_MOVES" "a \<noteq> ''bomb''" "b \<noteq> ''bomb''" "a \<noteq> b"
  shows "\<exists>rr. resolve_round py a b = Inr rr \<and>
           rr ''winner'' = Some (if beats a b then ''user'' else ''bot'') \<and>
           (beats a b \<or> beats b a) \<and> \<not> (beats a b \<and> beats b a)"
  using assms
  by (auto simp: VALID_MOVES_def resolve_round_def win_conditions_def lookup_def beats_def)

text \<open>
  C2. For every pair of moves from rock, paper, scissors and bomb, and whatever
  \<open>str.capitalize\<close> does to the text of the reason, \<open>resolve_round\<close> returns an
  outcome whose winner follows the precedence of the rules: bomb against bomb is a draw;
  the user's bomb alone wins for the user; the bot's bomb alone wins for the bot; two
  equal moves that are not bombs are a draw; otherwise the user wins exactly when the
  user's move beats the bot's, the bot wins exactly when the bot's move beats the user's,
  and one of the two wins.
\<close>

theorem resolve_round_precedence:
  assumes "user_move \<in> VALID_MOVES" and "bot_move \<in> VALID_MOVES"
  shows "\<exists>rr w. resolve_round py user_move bot_move = Inr rr \<and> rr ''winner'' = Some w \<and>
           (user_move = ''bomb'' \<and> bot_move = ''bomb'' \<longrightarrow> w = ''draw'') \<and>
           (user_move = ''bomb'' \<and> bot_move \<noteq> ''bomb'' \<longrightarrow> w = ''user'') \<and>
           (user_move \<noteq> ''bomb'' \<and> bot_move = ''bomb'' \<longrightarrow> w = ''bot'') \<and>
           (user_move \<noteq> ''bomb'' \<and> user_move = bot_move \<longrightarrow> w = ''draw'') \<and>
           (user_move \<noteq> ''bomb'' \<and> bot_move \<noteq> ''bomb'' \<and> user_move \<noteq> bot_move \<longrightarrow>
              (w = ''user'' \<longleftrightarrow> beats user_move bot_move) \<and>
              (w = ''bot'' \<longleftrightarrow> beats bot_move user_move) \<and>
              (w = ''user'' \<or> w = ''bot''))"
proof (cases "user_move = ''bomb''")
  case True
  then show ?thesis
    by (cases "bot_move = ''bomb''") (simp_all add: resolve_round_bomb)
next
  case user: False
  show ?thesis
  proof (cases "bot_move = ''bomb''")
    case True
    with user show ?thesis by (simp add: resolve_round_bomb)
  next
    case bot: False
    show ?thesis
    proof (cases "user_move = bot_move")
      case True
      with user show ?thesis by (simp add: resolve_round_same)
    next
      case False
      from resolve_round_beats [OF assms user bot False, where py = py] user bot False
      show ?thesis
        by (auto split: if_splits)
    qed
  qed
qed

theorem resolve_round_precedence_witness:
  "''rock'' \<in> VALID_MOVES \<and> ''paper'' \<in> VALID_MOVES \<and> ''scissors'' \<in> VALID_MOVES \<and>
   ''bomb'' \<in> VALID_MOVES \<and>
   (\<exists>rr. resolve_round ascii_str ''bomb'' ''bomb'' = Inr rr \<and> rr ''winner'' = Some ''draw'') \<and>
   (\<exists>rr. resolve_round ascii_str ''bomb'' ''rock'' = Inr rr \<and> rr ''winner'' = Some ''user'') \<and>
   (\<exists>rr. resolve_round ascii_str ''paper'' ''bomb'' = Inr rr \<and> rr ''winner'' = Some ''bot'') \<and>
   (\<exists>rr. resolve_round ascii_str ''paper'' ''paper'' = Inr rr \<and> rr ''winner'' = Some ''draw'') \<and>
   (\<exists>rr. resolve_round ascii_str ''rock'' ''scissors'' = Inr rr \<and> rr ''winner'' = Some ''user'') \<and>
   (\<exists>rr. resolve_round ascii_str ''scissors'' ''rock'' = Inr rr \<and> rr ''winner'' = Some ''bot'')"
proof -
  have v: "''rock'' \<in> VALID_MOVES" "''paper'' \<in> VALID_MOVES" "''scissors'' \<in> VALID_MOVES"
    "''bomb'' \<in> VALID_MOVES"
    by (simp_all add: VALID_MOVES_def)
  have b: "beats ''rock'' ''scissors''" "\<not> beats ''scissors'' ''rock''"
    by (simp_all add: beats_def)
  from resolve_round_precedence [where py = ascii_str, OF v(4) v(4)]
  have 1: "\<exists>rr. resolve_round ascii_str ''bomb'' ''bomb'' = Inr rr \<and> rr ''winner'' = Some ''draw''"
    by auto
  from resolve_round_precedence [where py = ascii_str, OF v(4) v(1)]
  have 2: "\<exists>rr. resolve_round ascii_str ''bomb'' ''rock'' = Inr rr \<and> rr ''winner'' = Some ''user''"
    by auto
  from resolve_round_precedence [where py = ascii_str, OF v(2) v(4)]
  have 3: "\<exists>rr. resolve_round ascii_str ''paper'' ''bomb'' = Inr rr \<and> rr ''winner'' = Some ''bot''"
    by auto
  from resolve_round_precedence [where py = ascii_str, OF v(2) v(2)]
  have 4: "\<exists>rr. resolve_round ascii_str ''paper'' ''paper'' = Inr rr \<and> rr ''winner'' = Some ''draw''"
    by auto
  from resolve_round_precedence [where py = ascii_str, OF v(1) v(3)] b
  have 5: "\<exists>rr. resolve_round ascii_str ''rock'' ''scissors'' = Inr rr \<and> rr ''winner'' = Some ''user''"
    by auto
  from resolve_round_precedence [where py = ascii_str, OF v(3) v(1)] b
  have 6: "\<exists>rr. resolve_round ascii_str ''scissors'' ''rock'' = Inr rr \<and> rr ''winner'' = Some ''bot''"
    by auto
  from v 1 2 3 4 5 6 show ?thesis by blast
qed

subsection \<open>Bomb flags, scores and the end of the game\<close>

text \<open>
  C3. A call of \<open>update_game_state\<close> on an outcome with a winner and a reason and a state
  with both score keys returns a state. Whenever a call returns a state: a bomb flag that
  was true in the input state is true in the returned state, for the user and for the
  bot; the user's flag is true after a call whose user move is bomb, and the bot's flag is
  true after a call whose bot move is bomb.
\<close>

theorem bomb_used_never_reset:
  "(result_ok round_result \<and> scores_ok s \<longrightarrow>
      (\<exists>s'. update_game_state s user_move bot_move round_result = Inr s')) \<and>
   (\<forall>s'. update_game_state s user_move bot_move round_result = Inr s' \<longrightarrow>
      (bomb_used s ''user'' = Some True \<longrightarrow> bomb_used s' ''user'' = Some True) \<and>
      (bomb_used s ''bot'' = Some True \<longrightarrow> bomb_used s' ''bot'' = Some True) \<and>
      (user_move = Some ''bomb'' \<longrightarrow> bomb_used s' ''user'' = Some True) \<and>
      (bot_move = ''bomb'' \<longrightarrow> bomb_used s' ''bot'' = Some True))"
  using update_game_state_returns [of round_result s user_move bot_move]
  by (auto simp: update_game_state_fields(5))

theorem bomb_used_never_reset_witness:
  "result_ok draw_result \<and> scores_ok both_bombs_used \<and>
   bomb_used both_bombs_used ''user'' = Some True \<and>
   bomb_used both_bombs_used ''bot'' = Some True \<and>
   (\<exists>s'. update_game_state both_bombs_used (Some ''bomb'') ''bomb'' draw_result = Inr s' \<and>
      bomb_used s' ''user'' = Some True \<and> bomb_used s' ''bot'' = Some True)"
proof -
  have ok: "result_ok draw_result \<and> scores_ok both_bombs_used"
    by (simp add: results_ok scores_ok_def both_bombs_used_def initialize_game_state_def)
  have used: "bomb_used both_bombs_used ''user'' = Some True"
    "bomb_used both_bombs_used ''bot'' = Some True"
    by (simp_all add: both_bombs_used_def)
  note inst = bomb_used_never_reset [of draw_result both_bombs_used "Some ''bomb''" "''bomb''"]
  from inst ok obtain s' where
    s': "update_game_state both_bombs_used (Some ''bomb'') ''bomb'' draw_result = Inr s'"
    by blast
  with inst used have "bomb_used s' ''user'' = Some True \<and> bomb_used s' ''bot'' = Some True"
    by blast
  with ok used s' show ?thesis by blast
qed

text \<open>
  C7. A call of \<open>update_game_state\<close> on an outcome with a winner and a reason and a state
  with both score keys returns a state. Whenever a call returns a state: if the winner is
  user, the user's score is the input's plus 1 and the bot's score is unchanged; if the
  winner is bot, the bot's score is the input's plus 1 and the user's is unchanged; on a
  draw the scores are unchanged; and no score of the input state is decreased.
\<close>

theorem score_changes_by_winner:
  "(result_ok round_result \<and> scores_ok s \<longrightarrow>
      (\<exists>s'. update_game_state s user_move bot_move round_result = Inr s')) \<and>
   (\<forall>s'. update_game_state s user_move bot_move round_result = Inr s' \<longrightarrow>
      (round_result ''winner'' = Some ''user'' \<longrightarrow>
         (\<exists>n. score s ''user'' = Some n \<and> score s' ''user'' = Some (n + 1)) \<and>
         score s' ''bot'' = score s ''bot'') \<and>
      (round_result ''winner'' = Some ''bot'' \<longrightarrow>
         (\<exists>n. score s ''bot'' = Some n \<and> score s' ''bot'' = Some (n + 1)) \<and>
         score s' ''user'' = score s ''user'') \<and>
      (round_result ''winner'' = Some ''draw'' \<longrightarrow> score s' = score s) \<and>
      (\<forall>k n. score s k = Some n \<longrightarrow> (\<exists>n'. score s' k = Some n' \<and> n \<le> n')))"
proof (intro conjI allI impI)
  assume "result_ok round_result \<and> scores_ok s"
  then show "\<exists>s'. update_game_state s user_move bot_move round_result = Inr s'"
    using update_game_state_returns by blast
next
  fix s' assume "update_game_state s user_move bot_move round_result = Inr s'"
    and "round_result ''winner'' = Some ''user''"
  then show "\<exists>n. score s ''user'' = Some n \<and> score s' ''user'' = Some (n + 1)"
    by (auto dest!: update_game_state_score)
next
  fix s' assume "update_game_state s user_move bot_move round_result = Inr s'"
    and "round_result ''winner'' = Some ''user''"
  then show "score s' ''bot'' = score s ''bot''"
    by (auto dest!: update_game_state_score)
next
  fix s' assume "update_game_state s user_move bot_move round_result = Inr s'"
    and "round_result ''winner'' = Some ''bot''"
  then show "\<exists>n. score s ''bot'' = Some n \<and> score s' ''bot'' = Some (n + 1)"
    by (auto dest!: update_game_state_score)
next
  fix s' assume "update_game_state s user_move bot_move round_result = Inr s'"
    and "round_result ''winner'' = Some ''bot''"
  then show "score s' ''user'' = score s ''user''"
    by (auto dest!: update_game_state_score)
next
  fix s' assume "update_game_state s user_move bot_move round_result = Inr s'"
    and "round_result ''winner'' = Some ''draw''"
  then show "score s' = score s"
    by (auto dest!: update_game_state_score)
next
  fix s' k n assume "update_game_state s user_move bot_move round_result = Inr s'"
    and "score s k = Some n"
  then show "\<exists>n'. score s' k = Some n' \<and> n \<le> n'"
    by (auto dest!: update_game_state_score split: if_splits)
qed

theorem score_changes_by_winner_witness:
  "result_ok user_result \<and> result_ok bot_result \<and> result_ok draw_result \<and>
   scores_ok initialize_game_state \<and>
   score initialize_game_state ''user'' = Some 0 \<and>
   score initialize_game_state ''bot'' = Some 0 \<and>
   (\<exists>s'. update_game_state initialize_game_state (Some ''rock'') ''scissors'' user_result = Inr s'
      \<and> score s' ''user'' = Some 1 \<and> score s' ''bot'' = Some 0) \<and>
   (\<exists>s'. update_game_state initialize_game_state (Some ''rock'') ''paper'' bot_result = Inr s'
      \<and> score s' ''user'' = Some 0 \<and> score s' ''bot'' = Some 1) \<and>
   (\<exists>s'. update_game_state initialize_game_state (Some ''rock'') ''rock'' draw_result = Inr s'
      \<and> score s' ''user'' = Some 0 \<and> score s' ''bot'' = Some 0)"
proof -
  note ok = results_ok(1-3) initial_scores_ok
  have sc: "score initialize_game_state ''user'' = Some 0"
    "score initialize_game_state ''bot'' = Some 0"
    by (simp_all add: initialize_game_state_def)
  have w: "user_result ''winner'' = Some ''user''" "bot_result ''winner'' = Some ''bot''"
    "draw_result ''winner'' = Some ''draw''"
    by (simp_all add: user_result_def bot_result_def draw_result_def)
  note u = score_changes_by_winner
    [of user_result initialize_game_state "Some ''rock''" "''scissors''"]
  note b = score_changes_by_winner
    [of bot_result initialize_game_state "Some ''rock''" "''paper''"]
  note d = score_changes_by_winner
    [of draw_result initialize_game_state "Some ''rock''" "''rock''"]
  from u ok obtain s1 where
    s1: "update_game_state initialize_game_state (Some ''rock'') ''scissors'' user_result = Inr s1"
    by blast
  with u w(1) sc have 1: "score s1 ''user'' = Some 1 \<and> score s1 ''bot'' = Some 0"
    by auto
  from b ok obtain s2 where
    s2: "update_game_state initialize_game_state (Some ''rock'') ''paper'' bot_result = Inr s2"
    by blast
  with b w(2) sc have 2: "score s2 ''user'' = Some 0 \<and> score s2 ''bot'' = Some 1"
    by auto
  from d ok obtain s3 where
    s3: "update_game_state initialize_game_state (Some ''rock'') ''rock'' draw_result = Inr s3"
    by blast
  with d w(3) sc have 3: "score s3 ''user'' = Some 0 \<and> score s3 ''bot'' = Some 0"
    by auto
  from ok sc s1 1 s2 2 s3 3 show ?thesis by blast
qed

text \<open>
  C8, as amended. A call of \<open>update_game_state\<close> on an outcome with a winner and a reason
  and a state with both score keys returns a state. Whenever a call returns a state, its
  round is the input's plus 1, \<open>max_rounds\<close> is unchanged, and \<open>game_over\<close> is true exactly
  when it was true in the input state or the new round exceeds \<open>max_rounds\<close>; so a
  \<open>game_over\<close> that is true is never made false, and for an input state in which
  \<open>game_over\<close> holds only with a round beyond \<open>max_rounds\<close> the returned \<open>game_over\<close> is
  true exactly when the new round exceeds \<open>max_rounds\<close>.
\<close>

theorem game_over_set_or_kept:
  "(result_ok round_result \<and> scores_ok s \<longrightarrow>
      (\<exists>s'. update_game_state s user_move bot_move round_result = Inr s')) \<and>
   (\<forall>s'. update_game_state s user_move bot_move round_result = Inr s' \<longrightarrow>
      round s' = round s + 1 \<and> max_rounds s' = max_rounds s \<and>
      (game_over s' \<longleftrightarrow> game_over s \<or> round s' > max_rounds s') \<and>
      (game_over s \<longrightarrow> game_over s') \<and>
      ((game_over s \<longrightarrow> round s > max_rounds s) \<longrightarrow>
         (game_over s' \<longleftrightarrow> round s' > max_rounds s')))"
  using update_game_state_returns [of round_result s user_move bot_move]
  by (auto simp: update_game_state_fields(1,2,3))

theorem game_over_set_or_kept_witness:
  "result_ok draw_result \<and> scores_ok at_round_3 \<and> scores_ok finished_state \<and>
   \<not> game_over at_round_3 \<and> game_over finished_state \<and>
   round finished_state > max_rounds finished_state \<and>
   (\<exists>s'. update_game_state at_round_3 (Some ''rock'') ''rock'' draw_result = Inr s' \<and>
      round s' = 4 \<and> game_over s') \<and>
   (\<exists>s'. update_game_state finished_state (Some ''rock'') ''rock'' draw_result = Inr s' \<and>
      round s' = 5 \<and> game_over s')"
proof -
  have ok: "result_ok draw_result" "scores_ok at_round_3" "scores_ok finished_state"
    by (simp_all add: results_ok scores_ok_def at_round_3_def finished_state_def
        initialize_game_state_def)
  have st: "\<not> game_over at_round_3" "round at_round_3 = 3" "max_rounds at_round_3 = 3"
    "game_over finished_state" "round finished_state = 4" "max_rounds finished_state = 3"
    by (simp_all add: at_round_3_def finished_state_def initialize_game_state_def)
  note third = game_over_set_or_kept [of draw_result at_round_3 "Some ''rock''" "''rock''"]
  note fourth = game_over_set_or_kept [of draw_result finished_state "Some ''rock''" "''rock''"]
  from third ok obtain s1 where
    s1: "update_game_state at_round_3 (Some ''rock'') ''rock'' draw_result = Inr s1"
    by blast
  with third st have 1: "round s1 = 4 \<and> game_over s1"
    by auto
  from fourth ok obtain s2 where
    s2: "update_game_state finished_state (Some ''rock'') ''rock'' draw_result = Inr s2"
    by blast
  with fourth st have 2: "round s2 = 5 \<and> game_over s2"
    by auto
  from ok st s1 1 s2 2 show ?thesis by auto
qed

text \<open>
  The state \<open>over_at_round_1\<close> is the fresh state with \<open>game_over\<close> set. A call on it
  returns a state whose \<open>game_over\<close> is true although its round, 2, does not exceed
  \<open>max_rounds\<close>, 3.
\<close>

theorem game_over_iff_round_counterexample:
  "update_game_state over_at_round_1 (Some ''rock'') ''rock'' draw_result = Inr over_at_round_2 \<and>
   game_over over_at_round_2 \<and> \<not> round over_at_round_2 > max_rounds over_at_round_2"
  by (simp add: update_eval over_at_round_1_def over_at_round_2_def draw_result_def
      initialize_game_state_def)


subsection \<open>Reading a state from the store\<close>

lemma read_state_Inr:
  "read_state h a = Inr s \<longleftrightarrow>
     (\<exists>so. get_state h a = Inr so \<and>
        get_dict_int h (obj_score so) = Inr (score s) \<and>
        get_dict_bool h (obj_bomb_used so) = Inr (bomb_used s) \<and>
        get_list h (obj_history so) = Inr (history s) \<and>
        round s = obj_round so \<and> max_rounds s = obj_max_rounds so \<and>
        game_over s = obj_game_over so)"
  by (cases s) (auto simp: read_state_def split: sum.splits)

lemma read_initial_heap: "read_state initial_heap 3 = Inr initialize_game_state"
  by (simp add: read_state_def get_state_def get_dict_int_def get_dict_bool_def get_list_def
      initial_heap_def initialize_game_state_def)

subsection \<open>\<open>validate_move\<close>\<close>

lemma validate_move_Inr:
  "validate_move py move s = Inr v \<longleftrightarrow>
     (let normalized = str_lower py (str_strip py move) in
      if normalized \<notin> VALID_MOVES then
        v = \<lparr> valid = False, normalized_move = None, error = Some (invalid_move_error move) \<rparr>
      else if normalized = ''bomb'' \<and> bomb_used s ''user'' = Some True then
        v = \<lparr> valid = False, normalized_move = None, error = Some bomb_used_error \<rparr>
      else
        (normalized = ''bomb'' \<longrightarrow> bomb_used s ''user'' = Some False) \<and>
        v = \<lparr> valid = True, normalized_move = Some normalized, error = None \<rparr>)"
  by (auto simp: validate_move_def Let_def lookup_def split: option.splits)

lemma validate_move_returns:
  "bomb_used s ''user'' \<noteq> None \<Longrightarrow> \<exists>v. validate_move py move s = Inr v"
  by (auto simp: validate_move_def Let_def lookup_def split: option.splits)

lemma errors_distinct: "bomb_used_error \<noteq> invalid_move_error m"
  by (simp add: bomb_used_error_def invalid_move_error_def)

lemma validate_move_h_heap: "snd (validate_move_h py move a h) = h"
  by (simp add: validate_move_h_def Let_def split: sum.splits)

lemma validate_move_h_result:
  "read_state h a = Inr s \<Longrightarrow> fst (validate_move_h py move a h) = validate_move py move s"
  by (auto simp: read_state_Inr validate_move_h_def validate_move_def Let_def split: sum.splits)

lemma laser_invalid:
  "validate_move ascii_str ''laser'' s =
     Inr \<lparr> valid = False, normalized_move = None, error = Some (invalid_move_error ''laser'') \<rparr>"
  by (simp add: validate_move_def VALID_MOVES_def str_eval)

text \<open>
  C6. Let \<open>py\<close> be the string methods, and let the normalization of a raw input be the
  input stripped and then lowercased by them, \<open>str_lower py (str_strip py move)\<close>. The
  following holds for every \<open>py\<close>, so for the methods of Python, every raw input and
  every state.
  On a state in which the user's bomb flag is present, \<open>validate_move\<close> returns a result.
  Whenever it returns a result: \<open>valid\<close> is true exactly when the normalization is one of
  the four moves and is not bomb while the user's bomb flag is true; a valid result
  carries the normalization and no message; an invalid result carries no move and a
  message, which names the raw input when the normalization is not a move, and is the
  other, different message when the bomb was already used. On the store, the call
  leaves every object as it was and computes the same result.
\<close>

theorem validate_move_accepts_exactly:
  "(bomb_used s ''user'' \<noteq> None \<longrightarrow> (\<exists>v. validate_move py move s = Inr v)) \<and>
   (\<forall>v. validate_move py move s = Inr v \<longrightarrow>
      (valid v \<longleftrightarrow>
         str_lower py (str_strip py move) \<in> VALID_MOVES \<and>
         \<not> (str_lower py (str_strip py move) = ''bomb'' \<and> bomb_used s ''user'' = Some True)) \<and>
      (valid v \<longrightarrow>
         normalized_move v = Some (str_lower py (str_strip py move)) \<and> error v = None) \<and>
      (\<not> valid v \<longrightarrow> normalized_move v = None \<and> error v \<noteq> None) \<and>
      (str_lower py (str_strip py move) \<notin> VALID_MOVES \<longrightarrow>
         error v = Some (invalid_move_error move)) \<and>
      (str_lower py (str_strip py move) \<in> VALID_MOVES \<and> \<not> valid v \<longrightarrow>
         error v = Some bomb_used_error \<and> bomb_used_error \<noteq> invalid_move_error move)) \<and>
   snd (validate_move_h py move a h) = h \<and>
   (read_state h a = Inr s \<longrightarrow>
      fst (validate_move_h py move a h) = validate_move py move s)"
  using validate_move_returns [where s = s and py = py and move = move]
    validate_move_h_result [where h = h and a = a and s = s and py = py and move = move]
  by (auto simp: validate_move_Inr Let_def validate_move_h_heap errors_distinct split: if_splits)

theorem validate_move_accepts_exactly_witness:
  "bomb_used initialize_game_state ''user'' \<noteq> None \<and>
   read_state initial_heap 3 = Inr initialize_game_state \<and>
   str_lower ascii_str (str_strip ascii_str ''BOMB '') = ''bomb'' \<and> ''bomb'' \<in> VALID_MOVES \<and>
   validate_move ascii_str ''BOMB '' initialize_game_state =
     Inr \<lparr> valid = True, normalized_move = Some ''bomb'', error = None \<rparr> \<and>
   validate_move_h ascii_str ''BOMB '' 3 initial_heap =
     (Inr \<lparr> valid = True, normalized_move = Some ''bomb'', error = None \<rparr>, initial_heap) \<and>
   bomb_used user_bomb_used ''user'' = Some True \<and>
   validate_move ascii_str ''BOMB '' user_bomb_used =
     Inr \<lparr> valid = False, normalized_move = None, error = Some bomb_used_error \<rparr> \<and>
   str_lower ascii_str (str_strip ascii_str ''laser'') \<notin> VALID_MOVES \<and>
   validate_move ascii_str ''laser'' initialize_game_state =
     Inr \<lparr> valid = False, normalized_move = None,
           error = Some (invalid_move_error ''laser'') \<rparr>"
proof -
  have key: "bomb_used initialize_game_state ''user'' \<noteq> None"
    "bomb_used user_bomb_used ''user'' = Some True"
    by (simp_all add: initialize_game_state_def user_bomb_used_def)
  have norm: "str_lower ascii_str (str_strip ascii_str ''BOMB '') = ''bomb''" "''bomb'' \<in> VALID_MOVES"
    "str_lower ascii_str (str_strip ascii_str ''laser'') \<notin> VALID_MOVES"
    by (simp_all add: str_eval VALID_MOVES_def)
  have unused: "bomb_used initialize_game_state ''user'' \<noteq> Some True"
    by (simp add: initialize_game_state_def)
  note fresh = validate_move_accepts_exactly
    [where py = ascii_str and s = initialize_game_state and move = "''BOMB ''" and a = 3
       and h = initial_heap]
  note again = validate_move_accepts_exactly
    [where py = ascii_str and s = user_bomb_used and move = "''BOMB ''" and a = 3
       and h = initial_heap]
  note laser = validate_move_accepts_exactly
    [where py = ascii_str and s = initialize_game_state and move = "''laser''" and a = 3
       and h = initial_heap]
  from fresh key(1) obtain v1 where v1: "validate_move ascii_str ''BOMB '' initialize_game_state = Inr v1"
    by blast
  with fresh norm unused have "valid v1 \<and> normalized_move v1 = Some ''bomb'' \<and> error v1 = None"
    by auto
  then have 1: "validate_move ascii_str ''BOMB '' initialize_game_state =
     Inr \<lparr> valid = True, normalized_move = Some ''bomb'', error = None \<rparr>"
    using v1 by (cases v1) simp
  from fresh read_initial_heap 1 have 2: "validate_move_h ascii_str ''BOMB '' 3 initial_heap =
     (Inr \<lparr> valid = True, normalized_move = Some ''bomb'', error = None \<rparr>, initial_heap)"
    by (cases "validate_move_h ascii_str ''BOMB '' 3 initial_heap") auto
  from again key(2) obtain v2 where v2: "validate_move ascii_str ''BOMB '' user_bomb_used = Inr v2"
    by auto
  with again norm key(2)
  have "\<not> valid v2 \<and> normalized_move v2 = None \<and> error v2 = Some bomb_used_error"
    by auto
  then have 3: "validate_move ascii_str ''BOMB '' user_bomb_used =
     Inr \<lparr> valid = False, normalized_move = None, error = Some bomb_used_error \<rparr>"
    using v2 by (cases v2) simp
  from laser key(1) obtain v3 where v3: "validate_move ascii_str ''laser'' initialize_game_state = Inr v3"
    by blast
  with laser norm(3)
  have "\<not> valid v3 \<and> normalized_move v3 = None \<and> error v3 = Some (invalid_move_error ''laser'')"
    by auto
  then have 4: "validate_move ascii_str ''laser'' initialize_game_state =
     Inr \<lparr> valid = False, normalized_move = None,
           error = Some (invalid_move_error ''laser'') \<rparr>"
    using v3 by (cases v3) simp
  from key read_initial_heap norm 1 2 3 4 show ?thesis by blast
qed

subsection \<open>\<open>process_turn\<close>\<close>

lemma format_final_result_returns:
  "scores_ok (game_state self) \<Longrightarrow> \<exists>final. format_final_result self = Inr final"
  by (auto simp: format_final_result_def scores_ok_def lookup_def Let_def)

lemma format_round_response_returns:
  assumes "scores_ok (game_state self)" and "result_ok rr"
  shows "\<exists>resp. format_round_response self n um bm rr v = Inr resp"
proof -
  from assms(1) obtain a b where
    sc: "score (game_state self) ''user'' = Some a" "score (game_state self) ''bot'' = Some b"
    by (auto simp: scores_ok_def)
  from assms(2) obtain w r where rr: "rr ''winner'' = Some w" "rr ''reason'' = Some r"
    by (auto simp: result_ok_def)
  from format_final_result_returns [OF assms(1)] obtain fin where
    fin: "format_final_result self = Inr fin" by blast
  show ?thesis
    by (simp add: format_round_response_def lookup_def sc rr fin Let_def)
qed

lemma generate_bot_move_returns:
  "bomb_used (game_state self) ''bot'' \<noteq> None \<Longrightarrow> \<exists>bm. generate_bot_move self rnd = Inr bm"
  by (auto simp: generate_bot_move_def lookup_def Let_def random_choice_def list_VALID_MOVES_def)

lemma process_turn_invalid:
  assumes "game_started self" and "\<not> game_over (game_state self)"
    and "validate_move py user_input (game_state self) = Inr v" and "\<not> valid v"
    and "generate_bot_move self rnd = Inr bm"
    and "update_game_state (game_state self) None bm invalid_input_result = Inr s'"
  shows "process_turn py self user_input rnd =
           (format_round_response (self\<lparr>game_state := s'\<rparr>) (round (game_state self)) None bm
              invalid_input_result v,
            self\<lparr>game_state := s'\<rparr>)"
  using assms by (simp add: process_turn_def Let_def)

lemma process_turn_invalid_ok:
  assumes "game_started self" and "\<not> game_over (game_state self)"
    and "validate_move py user_input (game_state self) = Inr v" and "\<not> valid v"
    and "state_ok (game_state self)"
  shows "\<exists>bm s' resp. generate_bot_move self rnd = Inr bm \<and>
           update_game_state (game_state self) None bm invalid_input_result = Inr s' \<and>
           process_turn py self user_input rnd = (Inr resp, self\<lparr>game_state := s'\<rparr>)"
proof -
  from assms(5) have ok: "scores_ok (game_state self)"
    and bot: "bomb_used (game_state self) ''bot'' \<noteq> None"
    by (simp_all add: state_ok_def)
  from generate_bot_move_returns [OF bot] obtain bm where
    bm: "generate_bot_move self rnd = Inr bm" by blast
  from update_game_state_returns [OF results_ok(4) ok] obtain s' where
    s': "update_game_state (game_state self) None bm invalid_input_result = Inr s'" by blast
  have "scores_ok (game_state (self\<lparr>game_state := s'\<rparr>))"
    using update_game_state_scores_ok [OF s' ok] by simp
  from format_round_response_returns [OF this results_ok(4)] obtain resp where
    "format_round_response (self\<lparr>game_state := s'\<rparr>) (round (game_state self)) None bm
       invalid_input_result v = Inr resp" by blast
  with process_turn_invalid [OF assms(1-4) bm s'] bm s' show ?thesis by auto
qed

lemma started_agent:
  "game_started started_game"
  "\<not> game_over (game_state started_game)"
  "state_ok (game_state started_game)"
  "game_state started_game = initialize_game_state"
  by (simp_all add: started_game_def start_game_def agent_init_def initialize_game_state_def state_ok_def
      scores_ok_def)

text \<open>
  C4. For every input, every draw of the bot and every \<open>py\<close>: \<open>process_turn\<close> on an
  agent whose game has not been started returns the message that the game is not
  started, and on an agent whose game is started and over it returns the message that the
  game is over; in both cases the agent is returned as it was, so score, round, bomb
  flags, history length and \<open>game_over\<close> of its state are the same after the call as
  before.
\<close>

theorem process_turn_rejects_unchanged:
  "(\<not> game_started self \<longrightarrow>
      process_turn py self user_input rnd = (Inr not_started_message, self)) \<and>
   (game_started self \<and> game_over (game_state self) \<longrightarrow>
      process_turn py self user_input rnd = (Inr game_over_message, self)) \<and>
   (\<not> game_started self \<or> game_over (game_state self) \<longrightarrow>
      (let s' = game_state (snd (process_turn py self user_input rnd)) in
       score s' = score (game_state self) \<and> round s' = round (game_state self) \<and>
       bomb_used s' = bomb_used (game_state self) \<and>
       length (history s') = length (history (game_state self)) \<and>
       game_over s' = game_over (game_state self)))"
  by (auto simp: process_turn_def)

theorem process_turn_rejects_unchanged_witness:
  "\<not> game_started agent_init \<and>
   process_turn ascii_str agent_init ''rock'' 0 = (Inr not_started_message, agent_init) \<and>
   game_started finished_agent \<and> game_over (game_state finished_agent) \<and>
   process_turn ascii_str finished_agent ''rock'' 0 = (Inr game_over_message, finished_agent) \<and>
   round (game_state (snd (process_turn ascii_str finished_agent ''rock'' 0))) = 4 \<and>
   length (history (game_state (snd (process_turn ascii_str finished_agent ''rock'' 0)))) = 0"
proof -
  have a: "\<not> game_started agent_init" by (simp add: agent_init_def)
  have f: "game_started finished_agent \<and> game_over (game_state finished_agent)"
    by (simp add: finished_agent_def finished_state_def)
  from process_turn_rejects_unchanged
    [where py = ascii_str and self = agent_init and user_input = "''rock''" and rnd = 0] a
  have 1: "process_turn ascii_str agent_init ''rock'' 0 = (Inr not_started_message, agent_init)"
    by blast
  from process_turn_rejects_unchanged
    [where py = ascii_str and self = finished_agent and user_input = "''rock''" and rnd = 0] f
  have 2: "process_turn ascii_str finished_agent ''rock'' 0 = (Inr game_over_message, finished_agent)"
    by blast
  have 3: "round (game_state finished_agent) = 4"
    "length (history (game_state finished_agent)) = 0"
    by (simp_all add: finished_agent_def finished_state_def initialize_game_state_def)
  from a f 1 2 3 show ?thesis by simp
qed



text \<open>
  C10. Let the game be started and not over, let the state carry its four keys, and let
  \<open>validate_move\<close> reject the input. If the generated bot move is bomb, \<open>process_turn\<close>
  returns a response and a new state in which the bot's bomb flag is true and whose
  history has one more record, with bot move bomb, winner bot and the reason built for
  invalid input. When the bot's bomb is still unused there is a draw that generates bomb.
\<close>

theorem bot_bomb_on_forfeited_round:
  assumes "game_started self" and "\<not> game_over (game_state self)"
    and "validate_move py user_input (game_state self) = Inr v" and "\<not> valid v"
    and "state_ok (game_state self)"
  shows "(generate_bot_move self rnd = Inr ''bomb'' \<longrightarrow>
           (\<exists>s' resp. process_turn py self user_input rnd = (Inr resp, self\<lparr>game_state := s'\<rparr>) \<and>
              bomb_used s' ''bot'' = Some True \<and>
              length (history s') = length (history (game_state self)) + 1 \<and>
              last (history s') ''bot_move'' = Some (PStr ''bomb'') \<and>
              last (history s') ''winner'' = Some (PStr ''bot'') \<and>
              last (history s') ''reason'' = Some (PStr ''Invalid input - bot wins by default''))) \<and>
         (bomb_used (game_state self) ''bot'' = Some False \<longrightarrow>
            (\<exists>r. generate_bot_move self r = Inr ''bomb''))"
proof (intro conjI impI)
  assume bomb: "generate_bot_move self rnd = Inr ''bomb''"
  from process_turn_invalid_ok [OF assms, where rnd = rnd] bomb obtain s' resp where
    s': "update_game_state (game_state self) None ''bomb'' invalid_input_result = Inr s'" and
    pt: "process_turn py self user_input rnd = (Inr resp, self\<lparr>game_state := s'\<rparr>)"
    by auto
  note f = update_game_state_fields [OF s']
  from f(4) have hist: "history s' = history (game_state self)
      @ [history_entry (round (game_state self)) None ''bomb'' ''bot''
           ''Invalid input - bot wins by default'']"
    by (simp add: invalid_input_result_def)
  have "bomb_used s' ''bot'' = Some True" by (simp add: f(5))
  moreover have "last (history s') ''bot_move'' = Some (PStr ''bomb'')"
    "last (history s') ''winner'' = Some (PStr ''bot'')"
    "last (history s') ''reason'' = Some (PStr ''Invalid input - bot wins by default'')"
    by (simp_all add: hist history_entry_def)
  ultimately show "\<exists>s' resp.
      process_turn py self user_input rnd = (Inr resp, self\<lparr>game_state := s'\<rparr>) \<and>
      bomb_used s' ''bot'' = Some True \<and>
      length (history s') = length (history (game_state self)) + 1 \<and>
      last (history s') ''bot_move'' = Some (PStr ''bomb'') \<and>
      last (history s') ''winner'' = Some (PStr ''bot'') \<and>
      last (history s') ''reason'' = Some (PStr ''Invalid input - bot wins by default'')"
    using pt hist by auto
next
  assume "bomb_used (game_state self) ''bot'' = Some False"
  then have "generate_bot_move self 3 = Inr ''bomb''"
    by (simp add: generate_bot_move_def lookup_def list_VALID_MOVES_def random_choice_def)
  then show "\<exists>r. generate_bot_move self r = Inr ''bomb''" ..
qed

theorem bot_bomb_on_forfeited_round_witness:
  "game_started started_game \<and>
   \<not> game_over (game_state started_game) \<and>
   state_ok (game_state started_game) \<and>
   (\<exists>v. validate_move ascii_str ''laser'' (game_state started_game) = Inr v \<and> \<not> valid v) \<and>
   bomb_used (game_state started_game) ''bot'' = Some False \<and>
   generate_bot_move started_game 3 = Inr ''bomb'' \<and>
   (\<exists>resp s'. process_turn ascii_str started_game ''laser'' 3
        = (Inr resp, started_game\<lparr>game_state := s'\<rparr>) \<and>
      bomb_used s' ''bot'' = Some True \<and> length (history s') = 1 \<and>
      last (history s') ''bot_move'' = Some (PStr ''bomb'') \<and>
      last (history s') ''winner'' = Some (PStr ''bot''))"
proof -
  let ?v = "\<lparr> valid = False, normalized_move = None,
               error = Some (invalid_move_error ''laser'') \<rparr>"
  have v: "validate_move ascii_str ''laser'' (game_state started_game) = Inr ?v"
    by (rule laser_invalid)
  have nv: "\<not> valid ?v" by simp
  have unused: "bomb_used (game_state started_game) ''bot'' = Some False"
    by (simp add: started_agent(4) initialize_game_state_def)
  have bm: "generate_bot_move started_game 3 = Inr ''bomb''"
    by (simp add: generate_bot_move_def started_agent(4) initialize_game_state_def lookup_def
        list_VALID_MOVES_def random_choice_def)
  have len: "length (history (game_state started_game)) = 0"
    by (simp add: started_agent(4) initialize_game_state_def)
  from bot_bomb_on_forfeited_round [OF started_agent(1,2) v nv started_agent(3), where rnd = 3] bm
  have "\<exists>resp s'. process_turn ascii_str started_game ''laser'' 3
        = (Inr resp, started_game\<lparr>game_state := s'\<rparr>) \<and>
      bomb_used s' ''bot'' = Some True \<and> length (history s') = 1 \<and>
      last (history s') ''bot_move'' = Some (PStr ''bomb'') \<and>
      last (history s') ''winner'' = Some (PStr ''bot'')"
    unfolding len by auto
  with started_agent(1,2,3) v nv unused bm show ?thesis by blast
qed


subsection \<open>\<open>update_game_state\<close> on the store\<close>

lemma length_layout [simp]: "length (layout n s) = 4"
  by (simp add: layout_def)

lemma get_layout:
  "get_state (h @ layout (length h) s) (length h + 3) =
     Inr \<lparr> obj_round = round s, obj_max_rounds = max_rounds s, obj_score = length h,
           obj_bomb_used = Suc (length h), obj_history = Suc (Suc (length h)),
           obj_game_over = game_over s \<rparr>"
  "get_dict_int (h @ layout (length h) s) (length h) = Inr (score s)"
  "get_dict_bool (h @ layout (length h) s) (Suc (length h)) = Inr (bomb_used s)"
  "get_list (h @ layout (length h) s) (Suc (Suc (length h))) = Inr (history s)"
  by (simp_all add: get_state_def get_dict_int_def get_dict_bool_def get_list_def layout_def
      nth_append)

lemma set_layout:
  "(h @ layout (length h) s)[length h := Dict_int d] = h @ layout (length h) (s\<lparr>score := d\<rparr>)"
  "(h @ layout (length h) s)[Suc (length h) := Dict_bool b] =
     h @ layout (length h) (s\<lparr>bomb_used := b\<rparr>)"
  "(h @ layout (length h) s)[Suc (Suc (length h)) := List_obj xs] =
     h @ layout (length h) (s\<lparr>history := xs\<rparr>)"
  by (simp_all add: layout_def list_update_append)

lemma read_layout: "read_state (h @ layout (length h) s) (length h + 3) = Inr s"
  by (simp add: read_state_def get_layout)

lemma get_append:
  "get_state h a = Inr so \<Longrightarrow> get_state (h @ xs) a = Inr so"
  "get_dict_int h a = Inr di \<Longrightarrow> get_dict_int (h @ xs) a = Inr di"
  "get_dict_bool h a = Inr db \<Longrightarrow> get_dict_bool (h @ xs) a = Inr db"
  "get_list h a = Inr l \<Longrightarrow> get_list (h @ xs) a = Inr l"
  by (auto simp: get_state_def get_dict_int_def get_dict_bool_def get_list_def nth_append
      split: if_splits)

lemma read_state_append: "read_state h a = Inr s \<Longrightarrow> read_state (h @ xs) a = Inr s"
  unfolding read_state_Inr by (auto simp: get_append)

lemma deepcopy_read:
  "read_state h a = Inr s \<Longrightarrow> deepcopy a h = Inr (length h + 3, h @ layout (length h) s)"
  unfolding read_state_Inr by (auto simp: deepcopy_def layout_def Let_def)

lemma deepcopy_fails: "read_state h a = Inl e \<Longrightarrow> deepcopy a h = Inl e"
  by (auto simp: read_state_def deepcopy_def split: sum.splits)

lemma bump_score_h_layout:
  "bump_score_h k (length h + 3) (h @ layout (length h) s) =
     (case bump_score k s of Inl e \<Rightarrow> Inl e | Inr s1 \<Rightarrow> Inr (h @ layout (length h) s1))"
  by (simp add: bump_score_h_def bump_score_def get_layout set_layout split: sum.splits)

lemma update_scores_h_layout:
  "update_scores_h w (length h + 3) (h @ layout (length h) s) =
     (case update_scores w s of Inl e \<Rightarrow> Inl e | Inr s1 \<Rightarrow> Inr (h @ layout (length h) s1))"
  by (simp add: update_scores_h_def update_scores_def bump_score_h_layout)

lemma set_bomb_h_layout:
  "set_bomb_h k (length h + 3) (h @ layout (length h) s) =
     Inr (h @ layout (length h) (s\<lparr>bomb_used := (bomb_used s)(k \<mapsto> True)\<rparr>))"
  by (simp add: set_bomb_h_def get_layout set_layout)

lemma mark_bombs_h_layout:
  "mark_bombs_h um bm (length h + 3) (h @ layout (length h) s) =
     Inr (h @ layout (length h) (mark_bombs um bm s))"
  by (simp add: mark_bombs_h_def mark_bombs_def set_bomb_h_layout Let_def)

lemma append_history_h_layout:
  "append_history_h um bm w reason (length h + 3) (h @ layout (length h) s) =
     Inr (h @ layout (length h)
            (s\<lparr>history := history s @ [history_entry (round s) um bm w reason]\<rparr>))"
  by (simp add: append_history_h_def get_layout set_layout)

lemma advance_round_h_layout:
  "advance_round_h (length h + 3) (h @ layout (length h) s) =
     Inr (h @ layout (length h) (advance_round s))"
proof -
  have "advance_round_h (length h + 3) (h @ layout (length h) s) =
          Inr ((h @ layout (length h) s)[length h + 3 :=
                 State_obj \<lparr> obj_round = round s + 1, obj_max_rounds = max_rounds s,
                   obj_score = length h, obj_bomb_used = Suc (length h),
                   obj_history = Suc (Suc (length h)),
                   obj_game_over = (game_over s \<or> round s + 1 > max_rounds s) \<rparr>])"
    by (simp add: advance_round_h_def get_layout Let_def)
  also have "\<dots> = Inr (h @ layout (length h) (advance_round s))"
    by (simp add: layout_def list_update_append advance_round_def Let_def)
  finally show ?thesis .
qed

text \<open>
  The call on the store computes what \<open>update_game_state\<close> computes on the value of the
  state: the new state is laid out behind the old store, also when an exception ends the
  call after the copy.
\<close>

lemma update_game_state_h_layout:
  assumes "read_state h a = Inr s"
  shows "\<exists>s1. update_game_state_h a um bm rr h =
           (case update_game_state s um bm rr of
              Inl e \<Rightarrow> (Inl e, h @ layout (length h) s1)
            | Inr s' \<Rightarrow> (Inr (length h + 3), h @ layout (length h) s'))"
proof (cases "lookup rr ''winner''")
  case (Inl e)
  then show ?thesis
    by (auto simp: update_game_state_h_def update_game_state_def deepcopy_read [OF assms])
next
  case w: (Inr w)
  show ?thesis
  proof (cases "update_scores w s")
    case (Inl e)
    with w show ?thesis
      by (auto simp: update_game_state_h_def update_game_state_def deepcopy_read [OF assms]
          update_scores_h_layout)
  next
    case s1: (Inr s1)
    show ?thesis
    proof (cases "lookup rr ''reason''")
      case (Inl e)
      with w s1 show ?thesis
        by (auto simp: update_game_state_h_def update_game_state_def deepcopy_read [OF assms]
            update_scores_h_layout mark_bombs_h_layout Let_def)
    next
      case (Inr reason)
      with w s1 show ?thesis
        by (simp add: update_game_state_h_def update_game_state_def deepcopy_read [OF assms]
            update_scores_h_layout mark_bombs_h_layout append_history_h_layout
            advance_round_h_layout Let_def)
    qed
  qed
qed

lemma update_game_state_h_fails:
  "read_state h a = Inl e \<Longrightarrow> update_game_state_h a um bm rr h = (Inl e, h)"
  by (simp add: update_game_state_h_def deepcopy_fails)

text \<open>
  C9. Let a call of \<open>update_game_state\<close> on the state object at \<open>state_ref\<close> in the store
  \<open>h\<close> end with the result \<open>res\<close> and the store \<open>h'\<close>. Every object of \<open>h\<close> is unchanged
  in \<open>h'\<close>, and the state read at \<open>state_ref\<close> is the same after the call as before: round,
  score, bomb flags, history and \<open>game_over\<close>. If \<open>state_ref\<close> holds the state value \<open>s\<close>,
  the call returns what \<open>update_game_state\<close> computes from \<open>s\<close>: the address of a new object
  that holds the new state and shares nothing with the old store, or the same exception;
  and it does return a state when the outcome has a winner and a reason and \<open>s\<close> has both
  score keys.
\<close>

theorem update_leaves_input_untouched:
  assumes "update_game_state_h state_ref user_move bot_move round_result h = (res, h')"
  shows "take (length h) h' = h \<and>
         read_state h' state_ref = read_state h state_ref \<and>
         (\<forall>s. read_state h state_ref = Inr s \<longrightarrow>
            (\<forall>s'. update_game_state s user_move bot_move round_result = Inr s' \<longrightarrow>
               (\<exists>new_ref so. res = Inr new_ref \<and> length h \<le> new_ref \<and>
                  read_state h' new_ref = Inr s' \<and> get_state h' new_ref = Inr so \<and>
                  length h \<le> obj_score so \<and> length h \<le> obj_bomb_used so \<and>
                  length h \<le> obj_history so)) \<and>
            (\<forall>e. update_game_state s user_move bot_move round_result = Inl e \<longrightarrow> res = Inl e) \<and>
            (result_ok round_result \<and> scores_ok s \<longrightarrow> (\<exists>new_ref. res = Inr new_ref)))"
proof (cases "read_state h state_ref")
  case (Inl e)
  from update_game_state_h_fails [OF Inl] assms have "res = Inl e" "h' = h"
    by simp_all
  with Inl show ?thesis by simp
next
  case (Inr s)
  from update_game_state_h_layout [OF Inr, of user_move bot_move round_result] assms
  obtain s1 where
    eq: "(res, h') =
           (case update_game_state s user_move bot_move round_result of
              Inl e \<Rightarrow> (Inl e, h @ layout (length h) s1)
            | Inr s' \<Rightarrow> (Inr (length h + 3), h @ layout (length h) s'))"
    by auto
  then obtain new where h': "h' = h @ new"
    by (cases "update_game_state s user_move bot_move round_result") auto
  have prefix: "take (length h) h' = h" by (simp add: h')
  have same: "read_state h' state_ref = read_state h state_ref"
    unfolding h' Inr by (rule read_state_append [OF Inr])
  have new_state: "\<exists>new_ref so. res = Inr new_ref \<and> length h \<le> new_ref \<and>
      read_state h' new_ref = Inr s' \<and> get_state h' new_ref = Inr so \<and>
      length h \<le> obj_score so \<and> length h \<le> obj_bomb_used so \<and> length h \<le> obj_history so"
    if "update_game_state s user_move bot_move round_result = Inr s'" for s'
    using eq that by (simp add: read_layout get_layout)
  have failure: "res = Inl e"
    if "update_game_state s user_move bot_move round_result = Inl e" for e
    using eq that by simp
  have returns: "\<exists>new_ref. res = Inr new_ref" if "result_ok round_result \<and> scores_ok s"
  proof -
    from that update_game_state_returns obtain s' where
      "update_game_state s user_move bot_move round_result = Inr s'" by blast
    with new_state show ?thesis by blast
  qed
  from prefix same new_state failure returns show ?thesis
    unfolding Inr by blast
qed

theorem update_leaves_input_untouched_witness:
  "read_state initial_heap 3 = Inr initialize_game_state \<and>
   result_ok user_result \<and> scores_ok initialize_game_state \<and>
   (\<exists>s'. update_game_state initialize_game_state (Some ''rock'') ''scissors'' user_result = Inr s')
   \<and>
   (\<exists>h'. update_game_state_h 3 (Some ''rock'') ''scissors'' user_result initial_heap = (Inr 7, h')
      \<and> take 4 h' = initial_heap \<and> read_state h' 3 = Inr initialize_game_state \<and>
      read_state h' 7 =
        update_game_state initialize_game_state (Some ''rock'') ''scissors'' user_result) \<and>
   update_game_state initialize_game_state (Some ''rock'') ''scissors'' Map.empty
     = Inl (KeyError ''winner'') \<and>
   (\<exists>h'. update_game_state_h 3 (Some ''rock'') ''scissors'' Map.empty initial_heap
        = (Inl (KeyError ''winner''), h')
      \<and> take 4 h' = initial_heap \<and> read_state h' 3 = Inr initialize_game_state)"
proof -
  note ok = results_ok(1) initial_scores_ok
  have len: "length initial_heap = 4" by (simp add: initial_heap_def)
  obtain s' where
    s': "update_game_state initialize_game_state (Some ''rock'') ''scissors'' user_result = Inr s'"
    using update_game_state_returns [OF ok] by blast
  have err: "update_game_state initialize_game_state (Some ''rock'') ''scissors'' Map.empty
     = Inl (KeyError ''winner'')"
    by (simp add: update_game_state_def lookup_def)
  obtain res h' where
    call: "update_game_state_h 3 (Some ''rock'') ''scissors'' user_result initial_heap = (res, h')"
    by (cases "update_game_state_h 3 (Some ''rock'') ''scissors'' user_result initial_heap")
  have 7: "res = Inr 7"
    using call by (simp add: heap_eval initial_heap_def user_result_def mk_result_def)
  from update_leaves_input_untouched [OF call] read_initial_heap s' 7
  have 1: "take 4 h' = initial_heap \<and> read_state h' 3 = Inr initialize_game_state \<and>
      read_state h' 7 = Inr s'"
    unfolding len by auto
  obtain res2 h2 where
    call2: "update_game_state_h 3 (Some ''rock'') ''scissors'' Map.empty initial_heap = (res2, h2)"
    by (cases "update_game_state_h 3 (Some ''rock'') ''scissors'' Map.empty initial_heap")
  from update_leaves_input_untouched [OF call2] read_initial_heap err
  have 2: "res2 = Inl (KeyError ''winner'') \<and> take 4 h2 = initial_heap \<and>
      read_state h2 3 = Inr initialize_game_state"
    unfolding len by auto
  from ok read_initial_heap s' call 7 1 err call2 2 show ?thesis by auto
qed


end
